theory Spec2Isabelle
  imports Complex_Main "HOL-Library.Word" "HOL-Library.Signed_Division"
begin

unbundle bit_operations_syntax

section \<open>Machine types\<close>

type_synonym uint8_t = "8 word"
type_synonym uint16_t = "16 word"
type_synonym uint32_t = "32 word"

text \<open>
  The signed arithmetic of \<open>_read\<close> (\<open>int32_t\<close>, \<open>int64_t\<close>) is modelled on \<open>int\<close> with
  the wrap-around to the width written out after every operation. \<open>>>\<close> on a signed
  operand is the arithmetic shift (\<open>drop_bit\<close> on \<open>int\<close> rounds towards minus infinity),
  \<open>/\<close> truncates towards zero (\<open>sdiv\<close>).
\<close>

definition int32 :: "int \<Rightarrow> int" where
  "int32 x = signed_take_bit 31 x"

definition int64 :: "int \<Rightarrow> int" where
  "int64 x = signed_take_bit 63 x"

definition sub32 :: "int \<Rightarrow> int \<Rightarrow> int" where
  "sub32 a b = int32 (a - b)"

definition shl32 :: "int \<Rightarrow> nat \<Rightarrow> int" where
  "shl32 a k = int32 (push_bit k a)"

definition add64 :: "int \<Rightarrow> int \<Rightarrow> int" where
  "add64 a b = int64 (a + b)"

definition sub64 :: "int \<Rightarrow> int \<Rightarrow> int" where
  "sub64 a b = int64 (a - b)"

definition mul64 :: "int \<Rightarrow> int \<Rightarrow> int" where
  "mul64 a b = int64 (a * b)"

definition div64 :: "int \<Rightarrow> int \<Rightarrow> int" where
  "div64 a b = int64 (a sdiv b)"

definition shl64 :: "int \<Rightarrow> nat \<Rightarrow> int" where
  "shl64 a k = int64 (push_bit k a)"

definition shr :: "int \<Rightarrow> nat \<Rightarrow> int" where
  "shr a k = drop_bit k a"

section \<open>Constants of the header\<close>

text \<open>
  The command bytes and the enumerator used by the source are macros and enumerators of
  \<open>Adafruit_MS8607.h\<close>; the model takes them as parameters.
\<close>

record ms8607_consts =
  PROM_ADDRESS_READ_ADDRESS_0 :: uint8_t
  PSENSOR_START_TEMPERATURE_ADC_CONVERSION :: uint8_t
  PSENSOR_START_PRESSURE_ADC_CONVERSION :: uint8_t
  PSENSOR_READ_ADC :: uint8_t
  MS8607_PRESSURE_RESOLUTION_OSR_8192 :: uint8_t
  SENSOR_TYPE_AMBIENT_TEMPERATURE :: int
  SENSOR_TYPE_PRESSURE :: int
  sizeof_sensors_event_t :: int

text \<open>
  For concrete runs: the command bytes of the MS8607 data sheet (OSR 8192 has the code 5)
  and the type codes and event size of the sensor framework.
\<close>

definition datasheet_consts :: ms8607_consts where
  "datasheet_consts =
     \<lparr>PROM_ADDRESS_READ_ADDRESS_0 = 0xA0,
      PSENSOR_START_TEMPERATURE_ADC_CONVERSION = 0x50,
      PSENSOR_START_PRESSURE_ADC_CONVERSION = 0x40,
      PSENSOR_READ_ADC = 0x00,
      MS8607_PRESSURE_RESOLUTION_OSR_8192 = 5,
      SENSOR_TYPE_AMBIENT_TEMPERATURE = 13,
      SENSOR_TYPE_PRESSURE = 6,
      sizeof_sensors_event_t = 36\<rparr>"

section \<open>The bus\<close>

text \<open>
  Modelled from the spec: the bus capability \<open>i2c_dev\<close> (class \<open>Adafruit_I2CDevice\<close>, an
  external collaborator) and \<open>delay\<close>. Section 6 of the specification:
  \<open>write(bytes) -> success|failure\<close>,
  \<open>writeThenRead(commandByte, responseLength) -> bytes|failure\<close>.
  The bus is a script of replies, consumed one per transaction, and a trace of what the
  driver issued. A failed transaction delivers no bytes: the caller's buffer keeps its
  contents. A script that has run out answers with failure.
\<close>

datatype bus_reply = Nack | Ack "uint8_t list"

datatype bus_event =
    Write "uint8_t list"
  | WriteThenRead "uint8_t list" nat
  | Delay nat

record i2c_bus =
  replies :: "bus_reply list"
  trace :: "bus_event list"

definition i2c_write :: "uint8_t list \<Rightarrow> i2c_bus \<Rightarrow> bool \<times> i2c_bus" where
  "i2c_write bytes bus =
     (case replies bus of
        [] \<Rightarrow> (False, bus\<lparr>trace := trace bus @ [Write bytes]\<rparr>)
      | Nack # rs \<Rightarrow> (False, bus\<lparr>replies := rs, trace := trace bus @ [Write bytes]\<rparr>)
      | Ack bs # rs \<Rightarrow> (True, bus\<lparr>replies := rs, trace := trace bus @ [Write bytes]\<rparr>))"

definition i2c_write_then_read ::
  "uint8_t list \<Rightarrow> nat \<Rightarrow> uint8_t list \<Rightarrow> i2c_bus \<Rightarrow> bool \<times> uint8_t list \<times> i2c_bus" where
  "i2c_write_then_read write_buffer read_len read_buffer bus =
     (case replies bus of
        [] \<Rightarrow> (False, read_buffer, bus\<lparr>trace := trace bus @ [WriteThenRead write_buffer read_len]\<rparr>)
      | Nack # rs \<Rightarrow>
          (False, read_buffer,
           bus\<lparr>replies := rs, trace := trace bus @ [WriteThenRead write_buffer read_len]\<rparr>)
      | Ack bs # rs \<Rightarrow>
          (if length bs = read_len
           then (True, bs @ drop read_len read_buffer,
                 bus\<lparr>replies := rs, trace := trace bus @ [WriteThenRead write_buffer read_len]\<rparr>)
           else (False, read_buffer,
                 bus\<lparr>replies := rs, trace := trace bus @ [WriteThenRead write_buffer read_len]\<rparr>)))"

definition delay :: "nat \<Rightarrow> i2c_bus \<Rightarrow> i2c_bus" where
  "delay ms bus = bus\<lparr>trace := trace bus @ [Delay ms]\<rparr>"

section \<open>Floating point\<close>

text \<open>
  The two cached values are \<open>float\<close>s. The floating-point arithmetic of the target is a
  parameter: the conversion of an integer to \<open>float\<close> and the \<open>float\<close> subtraction and
  division.
\<close>

record 'f float_ops =
  to_float :: "int \<Rightarrow> 'f"
  fsub :: "'f \<Rightarrow> 'f \<Rightarrow> 'f"
  fdiv :: "'f \<Rightarrow> 'f \<Rightarrow> 'f"

section \<open>The device object\<close>

text \<open>
  Modelled from the spec: the member declarations of class \<open>Adafruit_MS8607\<close> are in the
  header. Section 3: the calibration constants are unsigned 16-bit words, the Reading is a
  pair of floats.
\<close>

record 'f ms8607 =
  press_sens :: uint16_t
  press_offset :: uint16_t
  press_sens_temp_coeff :: uint16_t
  press_offset_temp_coeff :: uint16_t
  ref_temp :: uint16_t
  temp_temp_coeff :: uint16_t
  psensor_resolution_osr :: uint8_t
  temperature :: 'f
  pressure :: 'f
  sensorid_temp :: int
  sensorid_pressure :: int

section \<open>\<open>_psensor_crc_check\<close> (lines 280-308)\<close>

text \<open>One pass of the body of the inner loop (lines 299-302).\<close>

definition crc_shift :: "uint16_t \<Rightarrow> uint16_t" where
  "crc_shift n_rem =
     (if n_rem AND 0x8000 \<noteq> 0 then push_bit 1 n_rem XOR 0x3000 else push_bit 1 n_rem)"

text \<open>The inner loop (line 297): \<open>n_bit\<close> counts down to 0.\<close>

fun crc_bits :: "nat \<Rightarrow> uint16_t \<Rightarrow> uint16_t" where
  "crc_bits 0 n_rem = n_rem"
| "crc_bits (Suc n_bit) n_rem = crc_bits n_bit (crc_shift n_rem)"

text \<open>The outer loop (lines 289-304), from the counter \<open>cnt\<close> on.\<close>

function crc_bytes :: "uint16_t list \<Rightarrow> nat \<Rightarrow> uint16_t \<Rightarrow> uint16_t" where
  "crc_bytes n_prom cnt n_rem =
     (if cnt < (7 + 1) * 2 then
        crc_bytes n_prom (cnt + 1)
          (crc_bits 8
             (if cnt mod 2 = 1 then n_rem XOR (n_prom ! drop_bit 1 cnt AND 0x00FF)
              else n_rem XOR drop_bit 8 (n_prom ! drop_bit 1 cnt)))
      else n_rem)"
  by pat_completeness auto
termination
  by (relation "measure (\<lambda>(n_prom, cnt, n_rem). (7 + 1) * 2 - cnt)") auto

text \<open>
  The function writes \<open>n_prom[7]\<close>: on an array of fewer than 8 elements that is out of
  bounds (undefined behaviour), the result \<open>None\<close>. Otherwise the result is the returned
  \<open>bool\<close> and the array as the function leaves it.
\<close>

definition psensor_crc_check ::
  "uint16_t list \<Rightarrow> uint8_t \<Rightarrow> (bool \<times> uint16_t list) option" where
  "psensor_crc_check n_prom crc =
     (if length n_prom < 8 then None
      else
        let crc_read = n_prom ! 0;
            n_prom = n_prom[7 := 0];
            n_prom = n_prom[0 := 0x0FFF AND n_prom ! 0];
            n_rem = crc_bytes n_prom 0 0x00;
            n_rem = drop_bit 12 n_rem;
            n_prom = n_prom[0 := crc_read]
        in Some (uint n_rem = uint crc, n_prom))"

section \<open>\<open>_init\<close> (lines 79-104)\<close>

text \<open>The body of the loop (lines 85-89) at index \<open>i\<close>.\<close>

definition prom_step ::
  "ms8607_consts \<Rightarrow> nat \<Rightarrow> uint8_t list \<Rightarrow> uint16_t list \<Rightarrow> i2c_bus
     \<Rightarrow> uint8_t list \<times> uint16_t list \<times> i2c_bus" where
  "prom_step c i tmp_buffer buffer bus =
     (let offset = (2 * of_nat i :: uint8_t);
          tmp_buffer = tmp_buffer[0 := PROM_ADDRESS_READ_ADDRESS_0 c + offset];
          r = i2c_write_then_read (take 1 tmp_buffer) 2 tmp_buffer bus;
          tmp_buffer = fst (snd r);
          bus = snd (snd r);
          buffer = buffer[i := push_bit 8 (ucast (tmp_buffer ! 0))];
          buffer = buffer[i := buffer ! i OR ucast (tmp_buffer ! 1)]
      in (tmp_buffer, buffer, bus))"

text \<open>The loop of lines 84-90, from the index \<open>i\<close> on.\<close>

function prom_loop ::
  "ms8607_consts \<Rightarrow> nat \<Rightarrow> uint8_t list \<Rightarrow> uint16_t list \<Rightarrow> i2c_bus
     \<Rightarrow> uint8_t list \<times> uint16_t list \<times> i2c_bus" where
  "prom_loop c i tmp_buffer buffer bus =
     (if i < 7 then
        case prom_step c i tmp_buffer buffer bus of
          (tmp_buffer, buffer, bus) \<Rightarrow> prom_loop c (i + 1) tmp_buffer buffer bus
      else (tmp_buffer, buffer, bus))"
  by pat_completeness auto
termination
  by (relation "measure (\<lambda>(c, i, tmp_buffer, buffer, bus). 7 - i)") auto

text \<open>
  The local arrays \<open>tmp_buffer\<close> and \<open>buffer\<close> are not initialised: their contents at
  entry are the parameters \<open>tmp_buffer0\<close> and \<open>buffer0\<close>, by index.
\<close>

definition ms8607_init ::
  "ms8607_consts \<Rightarrow> 'f ms8607 \<Rightarrow> i2c_bus \<Rightarrow> int \<Rightarrow> (nat \<Rightarrow> uint8_t) \<Rightarrow> (nat \<Rightarrow> uint16_t)
     \<Rightarrow> (bool \<times> 'f ms8607 \<times> i2c_bus) option" where
  "ms8607_init c dev bus sensor_id tmp_buffer0 buffer0 =
     (case prom_loop c 0 (map tmp_buffer0 [0..<2]) (map buffer0 [0..<8]) bus of
        (tmp_buffer, buffer, bus) \<Rightarrow>
          (case psensor_crc_check buffer (ucast (drop_bit 12 (buffer ! 0 AND 0xF000))) of
             None \<Rightarrow> None
           | Some (ok, buffer) \<Rightarrow>
               if \<not> ok then Some (False, dev, bus)
               else Some (True,
                      dev\<lparr>press_sens := buffer ! 1,
                          press_offset := buffer ! 2,
                          press_sens_temp_coeff := buffer ! 3,
                          press_offset_temp_coeff := buffer ! 4,
                          ref_temp := buffer ! 5,
                          temp_temp_coeff := buffer ! 6,
                          psensor_resolution_osr := MS8607_PRESSURE_RESOLUTION_OSR_8192 c\<rparr>,
                      bus)))"

section \<open>\<open>_read\<close> (lines 199-278)\<close>

text \<open>The assembly of the three bytes of the buffer (lines 223-224 and 235-236).\<close>

definition adc_value :: "uint8_t list \<Rightarrow> uint32_t" where
  "adc_value buffer =
     push_bit 16 (ucast (buffer ! 0)) OR push_bit 8 (ucast (buffer ! 1)) OR ucast (buffer ! 2)"

text \<open>
  Lines 210-236: the two conversions. The locals \<open>status\<close> and \<open>buffer\<close> are not
  initialised: their contents at entry are the parameters \<open>status0\<close> and \<open>buffer0\<close>.
  The result is \<open>status\<close>, \<open>raw_temp\<close>, \<open>raw_pressure\<close> and the bus.
\<close>

definition read_adc ::
  "ms8607_consts \<Rightarrow> 'f ms8607 \<Rightarrow> i2c_bus \<Rightarrow> uint8_t \<Rightarrow> (nat \<Rightarrow> uint8_t)
     \<Rightarrow> uint8_t \<times> uint32_t \<times> uint32_t \<times> i2c_bus" where
  "read_adc c dev bus status0 buffer0 =
     (let status = status0;
          buffer = map buffer0 [0..<3];
          cmd = psensor_resolution_osr dev * 2;
          cmd = cmd OR PSENSOR_START_TEMPERATURE_ADC_CONVERSION c;
          r = i2c_write [cmd] bus;
          status = status OR of_bool (fst r);
          bus = delay 18 (snd r);
          buffer = buffer[0 := PSENSOR_READ_ADC c];
          r = i2c_write_then_read (take 1 buffer) 3 buffer bus;
          status = status OR of_bool (fst r);
          buffer = fst (snd r);
          bus = snd (snd r);
          raw_temp = adc_value buffer;
          cmd = psensor_resolution_osr dev * 2;
          cmd = cmd OR PSENSOR_START_PRESSURE_ADC_CONVERSION c;
          r = i2c_write [cmd] bus;
          status = status OR of_bool (fst r);
          bus = delay 18 (snd r);
          buffer = buffer[0 := PSENSOR_READ_ADC c];
          r = i2c_write_then_read (take 1 buffer) 3 buffer bus;
          status = status OR of_bool (fst r);
          buffer = fst (snd r);
          bus = snd (snd r);
          raw_pressure = adc_value buffer
      in (status, raw_temp, raw_pressure, bus))"

text \<open>Lines 238-270: the compensation, with every intermediate value.\<close>

record compensation =
  val_dT :: int
  val_TEMP :: int
  val_T2 :: int
  val_OFF2 :: int
  val_SENS2 :: int
  val_OFF :: int
  val_SENS :: int
  val_P :: int

definition second_order :: "int \<Rightarrow> int \<Rightarrow> int \<times> int \<times> int" where
  "second_order dT TEMP =
     (if TEMP < 2000 then
        let T2 = shr (mul64 3 (mul64 dT dT)) 33;
            OFF2 = div64 (mul64 (mul64 61 (sub64 TEMP 2000)) (sub64 TEMP 2000)) 16;
            SENS2 = div64 (mul64 (mul64 29 (sub64 TEMP 2000)) (sub64 TEMP 2000)) 16
        in if TEMP < - 1500 then
             (T2,
              add64 OFF2 (mul64 (mul64 17 (add64 TEMP 1500)) (add64 TEMP 1500)),
              add64 SENS2 (mul64 (mul64 9 (add64 TEMP 1500)) (add64 TEMP 1500)))
           else (T2, OFF2, SENS2)
      else (shr (mul64 5 (mul64 dT dT)) 38, 0, 0))"

definition compensate :: "'f ms8607 \<Rightarrow> uint32_t \<Rightarrow> uint32_t \<Rightarrow> compensation" where
  "compensate dev raw_temp raw_pressure =
     (let dT = sub32 (sint raw_temp) (shl32 (uint (ref_temp dev)) 8);
          TEMP = int32 (add64 2000 (shr (mul64 dT (uint (temp_temp_coeff dev))) 23));
          so = second_order dT TEMP;
          T2 = fst so;
          OFF2 = fst (snd so);
          SENS2 = snd (snd so);
          OFF = add64 (shl64 (uint (press_offset dev)) 17)
                  (shr (mul64 (uint (press_offset_temp_coeff dev)) dT) 6);
          OFF = sub64 OFF OFF2;
          SENS = add64 (shl64 (uint (press_sens dev)) 16)
                   (shr (mul64 (uint (press_sens_temp_coeff dev)) dT) 7);
          SENS = sub64 SENS SENS2;
          P = shr (sub64 (shr (mul64 (uint raw_pressure) SENS) 21) OFF) 15
      in \<lparr>val_dT = dT, val_TEMP = TEMP, val_T2 = T2, val_OFF2 = OFF2, val_SENS2 = SENS2,
          val_OFF = OFF, val_SENS = SENS, val_P = P\<rparr>)"

text \<open>Lines 272-273: the two cached values.\<close>

definition store_reading :: "'f float_ops \<Rightarrow> compensation \<Rightarrow> 'f ms8607 \<Rightarrow> 'f ms8607" where
  "store_reading F k dev =
     dev\<lparr>temperature := fdiv F (fsub F (to_float F (val_TEMP k)) (to_float F (val_T2 k))) (to_float F 100),
         pressure := fdiv F (to_float F (val_P k)) (to_float F 100)\<rparr>"

definition ms8607_read ::
  "'f float_ops \<Rightarrow> ms8607_consts \<Rightarrow> 'f ms8607 \<Rightarrow> i2c_bus \<Rightarrow> uint8_t \<Rightarrow> (nat \<Rightarrow> uint8_t)
     \<Rightarrow> bool \<times> 'f ms8607 \<times> i2c_bus" where
  "ms8607_read F c dev bus status0 buffer0 =
     (case read_adc c dev bus status0 buffer0 of
        (status, raw_temp, raw_pressure, bus) \<Rightarrow>
          (status \<noteq> 0, store_reading F (compensate dev raw_temp raw_pressure) dev, bus))"

section \<open>\<open>getEvent\<close> (lines 117-130)\<close>

text \<open>
  The event object, reduced to the fields the driver fills (\<open>sensors_event_t\<close> is a type
  of the sensor framework).
\<close>

record 'f sensors_event_t =
  ev_version :: int
  ev_sensor_id :: int
  ev_type :: int
  ev_timestamp :: uint32_t
  ev_value :: 'f

definition fillTempEvent :: "ms8607_consts \<Rightarrow> 'f ms8607 \<Rightarrow> uint32_t \<Rightarrow> 'f sensors_event_t" where
  "fillTempEvent c dev t =
     \<lparr>ev_version = sizeof_sensors_event_t c,
      ev_sensor_id = sensorid_temp dev,
      ev_type = SENSOR_TYPE_AMBIENT_TEMPERATURE c,
      ev_timestamp = t,
      ev_value = temperature dev\<rparr>"

definition fillPressureEvent :: "ms8607_consts \<Rightarrow> 'f ms8607 \<Rightarrow> uint32_t \<Rightarrow> 'f sensors_event_t" where
  "fillPressureEvent c dev t =
     \<lparr>ev_version = sizeof_sensors_event_t c,
      ev_sensor_id = sensorid_pressure dev,
      ev_type = SENSOR_TYPE_PRESSURE c,
      ev_timestamp = t,
      ev_value = pressure dev\<rparr>"

text \<open>
  \<open>millis()\<close> is the parameter \<open>t\<close>; a null event pointer is the flag \<open>False\<close> (the
  function does not use its \<open>humidity\<close> pointer). The result is the returned \<open>bool\<close>, the
  device, the bus and the events filled.
\<close>

definition getEvent ::
  "'f float_ops \<Rightarrow> ms8607_consts \<Rightarrow> 'f ms8607 \<Rightarrow> i2c_bus \<Rightarrow> uint32_t \<Rightarrow> bool \<Rightarrow> bool
     \<Rightarrow> uint8_t \<Rightarrow> (nat \<Rightarrow> uint8_t)
     \<Rightarrow> bool \<times> 'f ms8607 \<times> i2c_bus \<times> 'f sensors_event_t option \<times> 'f sensors_event_t option" where
  "getEvent F c dev bus t pressure_ptr temp_ptr status0 buffer0 =
     (case ms8607_read F c dev bus status0 buffer0 of
        (r, dev, bus) \<Rightarrow>
          (True, dev, bus,
           (if pressure_ptr then Some (fillPressureEvent c dev t) else None),
           (if temp_ptr then Some (fillTempEvent c dev t) else None)))"

section \<open>The CRC of section 4.1 of the specification, in its words\<close>

text \<open>
  Step 3: the words as bytes, high byte then low byte per word, in order.
\<close>

definition spec_bytes :: "uint16_t list \<Rightarrow> uint8_t list" where
  "spec_bytes ws = concat (map (\<lambda>w. [ucast (drop_bit 8 w), ucast w]) ws)"

text \<open>Steps 1 and 2: word0 masked with 0x0FFF, and a synthetic 8th word 0.\<close>

definition spec_words :: "uint16_t list \<Rightarrow> uint16_t list" where
  "spec_words ws = (take 7 ws)[0 := ws ! 0 AND 0x0FFF] @ [0]"

text \<open>
  Step 4, one of the 8 steps: if the remainder's top bit is set, shift left by 1 and XOR
  with 0x3000, else just shift left by 1.
\<close>

definition spec_step :: "uint16_t \<Rightarrow> uint16_t" where
  "spec_step r = (if bit r 15 then push_bit 1 r XOR 0x3000 else push_bit 1 r)"

text \<open>
  Steps 3 to 5 as the specification states them: each byte is XORed into the high byte
  of the remainder.
\<close>

definition spec_crc_high :: "uint16_t list \<Rightarrow> uint16_t" where
  "spec_crc_high ws =
     drop_bit 12
       (fold (\<lambda>b r. (spec_step ^^ 8) (r XOR push_bit 8 (ucast b))) (spec_bytes (spec_words ws)) 0)"

text \<open>The same with each byte XORed into the low byte of the remainder.\<close>

definition spec_crc_low :: "uint16_t list \<Rightarrow> uint16_t" where
  "spec_crc_low ws =
     drop_bit 12
       (fold (\<lambda>b r. (spec_step ^^ 8) (r XOR ucast b)) (spec_bytes (spec_words ws)) 0)"

text \<open>
  The CRC relation of a calibration vector (section 3, step 7 of section 4.1): the nibble
  computed by the algorithm of section 4.1 as it is worded equals the nibble stored in
  the top 4 bits of word0.
\<close>

definition crc_relation :: "uint16_t list \<Rightarrow> bool" where
  "crc_relation ws = (spec_crc_high ws = drop_bit 12 (ws ! 0))"

text \<open>The same relation with each byte XORed into the low byte of the remainder.\<close>

definition crc_relation_low :: "uint16_t list \<Rightarrow> bool" where
  "crc_relation_low ws = (spec_crc_low ws = drop_bit 12 (ws ! 0))"

text \<open>A single-bit flip: bit \<open>j\<close> of word \<open>i\<close>.\<close>

definition flip_bit_at :: "nat \<Rightarrow> nat \<Rightarrow> uint16_t list \<Rightarrow> uint16_t list" where
  "flip_bit_at i j ws = ws[i := ws ! i XOR push_bit j 1]"

text \<open>The check as \<open>_init\<close> calls it (line 92).\<close>

definition init_crc_ok :: "uint16_t list \<Rightarrow> bool option" where
  "init_crc_ok buffer =
     map_option fst (psensor_crc_check buffer (ucast (drop_bit 12 (buffer ! 0 AND 0xF000))))"

text \<open>The array \<open>buffer\<close> and the bus after the loop of lines 84-90 of \<open>_init\<close>.\<close>

definition prom_buffer ::
  "ms8607_consts \<Rightarrow> i2c_bus \<Rightarrow> (nat \<Rightarrow> uint8_t) \<Rightarrow> (nat \<Rightarrow> uint16_t) \<Rightarrow> uint16_t list" where
  "prom_buffer c bus tmp_buffer0 buffer0 =
     fst (snd (prom_loop c 0 (map tmp_buffer0 [0..<2]) (map buffer0 [0..<8]) bus))"

definition prom_bus ::
  "ms8607_consts \<Rightarrow> i2c_bus \<Rightarrow> (nat \<Rightarrow> uint8_t) \<Rightarrow> (nat \<Rightarrow> uint16_t) \<Rightarrow> i2c_bus" where
  "prom_bus c bus tmp_buffer0 buffer0 =
     snd (snd (prom_loop c 0 (map tmp_buffer0 [0..<2]) (map buffer0 [0..<8]) bus))"

text \<open>
  For concrete runs: exact rational arithmetic in place of the target's \<open>float\<close>, and a
  device object holding the calibration constants of the data sheet's example with the
  reading 20.00 degrees Celsius, 1100.02 mbar cached.
\<close>

definition exact_float :: "rat float_ops" where
  "exact_float = \<lparr>to_float = of_int, fsub = (\<lambda>a b. a - b), fdiv = (\<lambda>a b. a / b)\<rparr>"

definition datasheet_dev :: "rat ms8607" where
  "datasheet_dev =
     \<lparr>press_sens = 46372,
      press_offset = 43981,
      press_sens_temp_coeff = 29059,
      press_offset_temp_coeff = 27842,
      ref_temp = 31553,
      temp_temp_coeff = 28165,
      psensor_resolution_osr = 5,
      temperature = 2000 / 100,
      pressure = 110002 / 100,
      sensorid_temp = 0,
      sensorid_pressure = 0\<rparr>"

section \<open>The compensation of section 4.3 of the specification, in its words\<close>

text \<open>
  The algorithm of the specification on unbounded integers: \<open><<\<close> multiplies by a power
  of two, \<open>>>\<close> divides by one rounding down, and no operation wraps. \<open>cal\<close> holds the
  calibration constants.
\<close>

definition spec_compensation :: "'f ms8607 \<Rightarrow> int \<Rightarrow> int \<Rightarrow> compensation" where
  "spec_compensation cal raw_temperature raw_pressure =
     (let dT = raw_temperature - uint (ref_temp cal) * 2 ^ 8;
          TEMP = 2000 + (dT * uint (temp_temp_coeff cal)) div 2 ^ 23;
          T2 = (if TEMP < 2000 then (3 * (dT * dT)) div 2 ^ 33 else (5 * (dT * dT)) div 2 ^ 38);
          OFF2 = (if TEMP < 2000
                  then 61 * ((TEMP - 2000) * (TEMP - 2000)) div 16 +
                       (if TEMP < - 1500 then 17 * ((TEMP + 1500) * (TEMP + 1500)) else 0)
                  else 0);
          SENS2 = (if TEMP < 2000
                   then 29 * ((TEMP - 2000) * (TEMP - 2000)) div 16 +
                        (if TEMP < - 1500 then 9 * ((TEMP + 1500) * (TEMP + 1500)) else 0)
                   else 0);
          OFF = uint (press_offset cal) * 2 ^ 17 +
                (uint (press_offset_temp_coeff cal) * dT) div 2 ^ 6 - OFF2;
          SENS = uint (press_sens cal) * 2 ^ 16 +
                 (uint (press_sens_temp_coeff cal) * dT) div 2 ^ 7 - SENS2;
          P = ((raw_pressure * SENS) div 2 ^ 21 - OFF) div 2 ^ 15
      in \<lparr>val_dT = dT, val_TEMP = TEMP, val_T2 = T2, val_OFF2 = OFF2, val_SENS2 = SENS2,
          val_OFF = OFF, val_SENS = SENS, val_P = P\<rparr>)"

text \<open>The reply of the bus to the PROM read of one word: high byte, then low byte.\<close>

definition prom_reply :: "uint16_t \<Rightarrow> bus_reply" where
  "prom_reply w = Ack [ucast (drop_bit 8 w), ucast w]"

text \<open>
  For the proofs: the nibble the byte loop leaves for 8 words, and the 8 words that a
  flip of bit \<open>j\<close> of word \<open>i\<close> adds (XOR) to the words the loop runs over.
\<close>

definition crc_nibble :: "uint16_t list \<Rightarrow> uint16_t" where
  "crc_nibble ws = drop_bit 12 (fold (\<lambda>b r. crc_bits 8 (r XOR ucast b)) (spec_bytes ws) 0)"

definition unit_words :: "nat \<Rightarrow> nat \<Rightarrow> uint16_t list" where
  "unit_words i j =
     replicate i 0 @ [if i = 0 then push_bit j 1 AND 0x0FFF else push_bit j 1] @
     replicate (7 - i) 0"

section \<open>The CRC check against the specification\<close>

declare crc_bytes.simps [simp del]
declare prom_loop.simps [simp del]

lemma top_bit_test: "(r AND 0x8000 \<noteq> 0) = bit (r :: uint16_t) 15"
proof -
  have "(0x8000 :: uint16_t) = 2 ^ 15" by simp
  then show ?thesis by (simp only: and_exp_eq_0_iff_not_bit) simp
qed

lemma spec_step_eq: "spec_step r = crc_shift r"
  by (simp only: spec_step_def crc_shift_def top_bit_test)

lemma crc_bits_funpow: "crc_bits n r = (crc_shift ^^ n) r"
  by (induction n arbitrary: r) (simp_all add: funpow_swap1)

lemma spec_steps_eq: "(spec_step ^^ n) r = crc_bits n r"
proof -
  have "spec_step = crc_shift" by (rule ext) (rule spec_step_eq)
  then show ?thesis by (simp add: crc_bits_funpow)
qed

lemma low_byte_cast: "ucast (ucast w :: uint8_t) = (w AND 0x00FF :: uint16_t)"
proof -
  have m: "(0x00FF :: uint16_t) = mask 8" by (simp add: mask_eq_exp_minus_1)
  show ?thesis
    unfolding m by (rule bit_word_eqI) (auto simp: bit_simps)
qed

lemma high_byte_cast: "ucast (ucast (drop_bit 8 w) :: uint8_t) = (drop_bit 8 w :: uint16_t)"
  by (rule bit_word_eqI) (auto simp: bit_simps dest: bit_imp_le_length)

lemma high_byte_mask: "drop_bit 8 w AND 0x00FF = (drop_bit 8 w :: uint16_t)"
  using high_byte_cast [of w] by (simp only: low_byte_cast)

text \<open>The sixteen passes of the outer loop on an array of at least 8 words.\<close>

lemma crc_bytes_unroll:
  "crc_bytes (w0 # w1 # w2 # w3 # w4 # w5 # w6 # w7 # rest) 0 r =
   fold (\<lambda>b r. crc_bits 8 (r XOR ucast b)) (spec_bytes [w0, w1, w2, w3, w4, w5, w6, w7]) r"
  by (simp add: crc_bytes.simps spec_bytes_def low_byte_cast high_byte_mask drop_bit_Suc)

lemma list8_cases:
  assumes "8 \<le> length (ws :: 'a list)"
  obtains w0 w1 w2 w3 w4 w5 w6 w7 rest
  where "ws = w0 # w1 # w2 # w3 # w4 # w5 # w6 # w7 # rest"
proof -
  from assms obtain w0 t0 where "ws = w0 # t0" "7 \<le> length t0" by (cases ws) auto
  moreover then obtain w1 t1 where "t0 = w1 # t1" "6 \<le> length t1" by (cases t0) auto
  moreover then obtain w2 t2 where "t1 = w2 # t2" "5 \<le> length t2" by (cases t1) auto
  moreover then obtain w3 t3 where "t2 = w3 # t3" "4 \<le> length t3" by (cases t2) auto
  moreover then obtain w4 t4 where "t3 = w4 # t4" "3 \<le> length t4" by (cases t3) auto
  moreover then obtain w5 t5 where "t4 = w5 # t5" "2 \<le> length t5" by (cases t4) auto
  moreover then obtain w6 t6 where "t5 = w6 # t6" "1 \<le> length t6" by (cases t5) auto
  moreover then obtain w7 t7 where "t6 = w7 # t7" by (cases t6) auto
  ultimately show thesis using that by blast
qed

lemma crc_bytes_spec:
  assumes "8 \<le> length n_prom"
  shows "crc_bytes (n_prom[7 := 0, 0 := 0x0FFF AND n_prom ! 0]) 0 0 =
         fold (\<lambda>b r. (spec_step ^^ 8) (r XOR ucast b)) (spec_bytes (spec_words (take 7 n_prom))) 0"
proof -
  from assms obtain w0 w1 w2 w3 w4 w5 w6 w7 rest
    where ws: "n_prom = w0 # w1 # w2 # w3 # w4 # w5 # w6 # w7 # rest"
    by (rule list8_cases)
  have st: "(\<lambda>b r. (spec_step ^^ 8) (r XOR ucast b)) =
            (\<lambda>(b::uint8_t) r. crc_bits 8 (r XOR ucast b))"
    by (simp add: spec_steps_eq)
  have 1: "n_prom[7 := 0, 0 := 0x0FFF AND n_prom ! 0] =
           (0x0FFF AND w0) # w1 # w2 # w3 # w4 # w5 # w6 # 0 # rest"
    by (simp add: ws)
  have 2: "spec_words (take 7 n_prom) = [(0x0FFF AND w0), w1, w2, w3, w4, w5, w6, 0]"
    by (simp add: ws spec_words_def and.commute)
  show ?thesis
    unfolding st 1 2 by (rule crc_bytes_unroll)
qed

lemma crc_check_spec:
  "8 \<le> length n_prom \<Longrightarrow>
   psensor_crc_check n_prom crc =
     Some (uint (spec_crc_low (take 7 n_prom)) = uint crc, n_prom[7 := 0])"
  by (simp add: psensor_crc_check_def Let_def crc_bytes_spec spec_crc_low_def list_update_swap)

text \<open>The byte loop is linear over XOR.\<close>

lemma crc_shift_xor: "crc_shift (a XOR b) = crc_shift a XOR crc_shift b"
  by (simp add: crc_shift_def top_bit_test bit_xor_iff ac_simps)

lemma crc_bits_xor: "crc_bits n (a XOR b) = crc_bits n a XOR crc_bits n b"
  by (induction n arbitrary: a b) (simp_all add: crc_shift_xor)

lemma ucast_xor16: "(ucast (a XOR b :: uint8_t) :: uint16_t) = ucast a XOR ucast b"
  by (rule bit_word_eqI) (auto simp: bit_simps)

lemma ucast_xor8: "(ucast (a XOR b :: uint16_t) :: uint8_t) = ucast a XOR ucast b"
  by (rule bit_word_eqI) (auto simp: bit_simps)

lemma fold_bytes_xor:
  "length xs = length ys \<Longrightarrow>
   fold (\<lambda>b r. crc_bits 8 (r XOR ucast b)) (spec_bytes (map2 (XOR) xs ys)) (r XOR s) =
   fold (\<lambda>b r. crc_bits 8 (r XOR ucast b)) (spec_bytes xs) r XOR
   fold (\<lambda>(b::uint8_t) r. crc_bits 8 (r XOR ucast b)) (spec_bytes ys) s"
proof (induction xs ys arbitrary: r s rule: list_induct2)
  case Nil
  then show ?case by (simp add: spec_bytes_def)
next
  case (Cons x xs y ys)
  have sb: "\<And>w ws. spec_bytes (w # ws) = ucast (drop_bit 8 w) # ucast w # spec_bytes ws"
    by (simp add: spec_bytes_def)
  have "fold (\<lambda>b r. crc_bits 8 (r XOR ucast b)) (spec_bytes (map2 (XOR) (x # xs) (y # ys))) (r XOR s)
      = fold (\<lambda>(b::uint8_t) r. crc_bits 8 (r XOR ucast b)) (spec_bytes (map2 (XOR) xs ys))
          (crc_bits 8 (crc_bits 8 (r XOR ucast (ucast (drop_bit 8 x) :: uint8_t)) XOR ucast (ucast x :: uint8_t)) XOR
           crc_bits 8 (crc_bits 8 (s XOR ucast (ucast (drop_bit 8 y) :: uint8_t)) XOR ucast (ucast y :: uint8_t)))"
    by (simp add: sb ucast_xor8 ucast_xor16 crc_bits_xor ac_simps)
  then show ?case
    by (simp only: Cons.IH) (simp add: sb)
qed

lemma crc_nibble_xor:
  "length xs = length ys \<Longrightarrow> crc_nibble (map2 (XOR) xs ys) = crc_nibble xs XOR crc_nibble ys"
  using fold_bytes_xor [of xs ys 0 0] by (simp add: crc_nibble_def)

lemma crc_bits_add: "crc_bits (m + n) r = crc_bits n (crc_bits m r)"
  by (induction m arbitrary: r) simp_all

lemma crc_shift_0: "crc_shift 0 = 0"
  by (simp add: crc_shift_def)

lemma crc_bits_0: "crc_bits n 0 = 0"
  by (induction n) (simp_all add: crc_shift_0)

lemma spec_bytes_Cons: "spec_bytes (w # ws) = ucast (drop_bit 8 w) # ucast w # spec_bytes ws"
  by (simp add: spec_bytes_def)

lemma spec_bytes_append: "spec_bytes (xs @ ys) = spec_bytes xs @ spec_bytes ys"
  by (simp add: spec_bytes_def)

lemma fold_zero_words:
  "fold (\<lambda>(b::uint8_t) r. crc_bits 8 (r XOR ucast b)) (spec_bytes (replicate n 0)) r =
   crc_bits (16 * n) r"
proof (induction n arbitrary: r)
  case 0
  then show ?case by (simp add: spec_bytes_def)
next
  case (Suc n)
  have "crc_bits (16 * Suc n) r = crc_bits (16 * n) (crc_bits 8 (crc_bits 8 r))"
    using crc_bits_add [of 16 "16 * n" r] crc_bits_add [of 8 8 r] by simp
  then show ?case by (simp add: spec_bytes_Cons Suc.IH)
qed

lemma less16_cases:
  "j < 16 \<Longrightarrow> j \<in> {0, 1, 2, 3, 4, 5, 6, 7, 8, 9, 10, 11, 12, 13, 14, 15 :: nat}"
  by simp presburger

lemma one_bit_word:
  assumes "j < 16"
  shows "crc_bits 8 (crc_bits 8 (drop_bit 8 (push_bit j 1)) XOR (push_bit j 1 AND 0x00FF)) =
         crc_bits (8 + j) 1"
  using less16_cases [OF assms] by (elim insertE emptyE; hypsubst; code_simp)


lemma top_nibble_form:
  assumes "take_bit 12 (x :: uint16_t) = 0"
  obtains k where "k < 16" and "x = push_bit 12 (of_nat k)"
proof -
  have x: "x = push_bit 12 (drop_bit 12 x)"
    using bits_ident [of 12 x] assms by simp
  have "unat (drop_bit 12 x) = unat x div 2 ^ 12"
    by (simp add: drop_bit_eq_div unat_div)
  moreover have "unat x < 2 ^ 16"
    using unsigned_less [of x] by simp
  ultimately have "unat (drop_bit 12 x) < 16"
    by simp
  moreover have "x = push_bit 12 (of_nat (unat (drop_bit 12 x)))"
    using x by simp
  ultimately show thesis by (rule that)
qed

lemma nibble_step_cases:
  assumes "k < 16"
  shows "k = 0 \<or>
         (take_bit 12 (crc_shift (push_bit 12 (of_nat k))) = 0 \<and>
          crc_shift (push_bit 12 (of_nat k)) \<noteq> 0)"
  using less16_cases [OF assms] by (elim insertE emptyE; hypsubst; code_simp)

lemma nibble_step:
  assumes "take_bit 12 x = 0" and "x \<noteq> 0"
  shows "take_bit 12 (crc_shift x) = 0 \<and> crc_shift x \<noteq> 0"
proof -
  from assms(1) obtain k where k: "k < 16" "x = push_bit 12 (of_nat k)"
    by (rule top_nibble_form)
  have "k \<noteq> 0"
  proof
    assume "k = 0"
    with k(2) have "x = 0" by simp
    with assms(2) show False by simp
  qed
  with nibble_step_cases [OF k(1)] k(2) show ?thesis by simp
qed

lemma nibble_steps:
  "take_bit 12 x = 0 \<Longrightarrow> x \<noteq> 0 \<Longrightarrow> take_bit 12 (crc_bits n x) = 0 \<and> crc_bits n x \<noteq> 0"
  by (induction n arbitrary: x) (simp_all add: nibble_step)

lemma nibble_nonzero:
  assumes "take_bit 12 (x :: uint16_t) = 0" and "x \<noteq> 0"
  shows "drop_bit 12 x \<noteq> 0"
proof
  assume "drop_bit 12 x = 0"
  with bits_ident [of 12 x] assms(1) have "x = 0" by simp
  with assms(2) show False by simp
qed

lemma one_bit_orbit:
  assumes "12 \<le> m"
  shows "drop_bit 12 (crc_bits m 1) \<noteq> 0"
proof -
  have s: "crc_bits 12 1 = 0x1000" by code_simp
  have "crc_bits m 1 = crc_bits (m - 12) (crc_bits 12 1)"
    using crc_bits_add [of 12 "m - 12" 1] assms by simp
  moreover have "take_bit 12 (0x1000 :: uint16_t) = 0" "(0x1000 :: uint16_t) \<noteq> 0"
    by simp_all
  ultimately show ?thesis
    using nibble_steps [of "0x1000" "m - 12"] nibble_nonzero [of "crc_bits m 1"]
    by (simp add: s)
qed

lemma crc_nibble_zero: "crc_nibble (replicate n 0) = 0"
  by (simp add: crc_nibble_def fold_zero_words crc_bits_0)

lemma crc_nibble_one_bit:
  assumes "i < 7" and "j < 16"
  shows "crc_nibble (replicate i 0 @ [push_bit j 1] @ replicate (7 - i) 0) \<noteq> 0"
proof -
  have "fold (\<lambda>(b::uint8_t) r. crc_bits 8 (r XOR ucast b))
          (spec_bytes (replicate i 0 @ [push_bit j 1] @ replicate (7 - i) 0)) 0 =
        crc_bits (16 * (7 - i)) (crc_bits (8 + j) 1)"
    by (simp add: spec_bytes_append spec_bytes_Cons fold_zero_words crc_bits_0
          low_byte_cast high_byte_mask one_bit_word [OF assms(2)] del: push_bit_of_1)
  also have "\<dots> = crc_bits (8 + j + 16 * (7 - i)) 1"
    by (simp add: crc_bits_add)
  finally show ?thesis
    using one_bit_orbit [of "8 + j + 16 * (7 - i)"] assms(1)
    by (simp add: crc_nibble_def)
qed

lemma stored_bit_cases:
  assumes "j < 16"
  shows "(push_bit j 1 AND 0x0FFF :: uint16_t) = (if j < 12 then push_bit j 1 else 0) \<and>
         ((drop_bit 12 (push_bit j 1 :: uint16_t) = 0) = (j < 12))"
  using less16_cases [OF assms] by (elim insertE emptyE; hypsubst; code_simp)

lemma unit_words_nibble:
  assumes "i < 7" and "j < 16"
  shows "crc_nibble (unit_words i j) \<noteq> (if i = 0 then drop_bit 12 (push_bit j 1) else 0)"
proof (cases "i = 0 \<and> 12 \<le> j")
  case True
  then have "unit_words i j = replicate 8 0"
    using stored_bit_cases [OF assms(2)]
    by (simp add: unit_words_def eval_nat_numeral)
  then show ?thesis
    using True stored_bit_cases [OF assms(2)] by (simp add: crc_nibble_zero)
next
  case False
  then have "unit_words i j = replicate i 0 @ [push_bit j 1] @ replicate (7 - i) 0"
    using stored_bit_cases [OF assms(2)] by (auto simp: unit_words_def)
  moreover have "(if i = 0 then drop_bit 12 (push_bit j 1 :: uint16_t) else 0) = 0"
    using False stored_bit_cases [OF assms(2)] by auto
  ultimately show ?thesis
    using crc_nibble_one_bit [OF assms] by simp
qed

lemma spec_crc_low_nibble: "spec_crc_low ws = crc_nibble (spec_words ws)"
  by (simp add: spec_crc_low_def crc_nibble_def spec_steps_eq)

lemma length_spec_words: "length ws = 7 \<Longrightarrow> length (spec_words ws) = 8"
  by (simp add: spec_words_def)

lemma length_unit_words: "i < 7 \<Longrightarrow> length (unit_words i j) = 8"
  by (simp add: unit_words_def)

lemma nth_spec_words:
  "length ws = 7 \<Longrightarrow> k < 8 \<Longrightarrow>
   spec_words ws ! k = (if k = 7 then 0 else if k = 0 then ws ! 0 AND 0x0FFF else ws ! k)"
  by (auto simp: spec_words_def nth_append nth_list_update)

lemma nth_unit_words:
  "i < 7 \<Longrightarrow> k < 8 \<Longrightarrow>
   unit_words i j ! k =
     (if k = i then (if i = 0 then push_bit j 1 AND 0x0FFF else push_bit j 1) else 0)"
  by (auto simp: unit_words_def nth_append nth_Cons split: nat.splits)

lemma nth_flip_bit_at:
  "i < length ws \<Longrightarrow>
   flip_bit_at i j ws ! k = (if k = i then ws ! i XOR push_bit j 1 else ws ! k)"
  by (simp add: flip_bit_at_def nth_list_update del: push_bit_of_1)

lemma xor_cancel_word: "(a XOR b = a XOR c) = (b = (c :: uint16_t))"
  by (metis bit.xor_left_self)

lemma flip_words:
  assumes "length ws = 7" and "i < 7"
  shows "spec_words (flip_bit_at i j ws) = map2 (XOR) (spec_words ws) (unit_words i j)"
proof (rule nth_equalityI)
  show "length (spec_words (flip_bit_at i j ws)) =
        length (map2 (XOR) (spec_words ws) (unit_words i j))"
    using assms by (simp add: length_spec_words length_unit_words flip_bit_at_def)
next
  fix k
  assume "k < length (spec_words (flip_bit_at i j ws))"
  with assms have k: "k < 8"
    by (simp add: length_spec_words flip_bit_at_def)
  have l: "length (flip_bit_at i j ws) = 7"
    using assms by (simp add: flip_bit_at_def)
  show "spec_words (flip_bit_at i j ws) ! k =
        map2 (XOR) (spec_words ws) (unit_words i j) ! k"
    using assms k
    by (simp add: nth_spec_words [OF l k] nth_spec_words [OF assms(1) k]
          nth_unit_words [OF assms(2) k] length_spec_words length_unit_words
          nth_flip_bit_at bit.conj_xor_distrib2 del: push_bit_of_1)
qed

lemma flip_stored:
  assumes "length ws = 7" and "i < 7"
  shows "drop_bit 12 (flip_bit_at i j ws ! 0) =
         drop_bit 12 (ws ! 0) XOR (if i = 0 then drop_bit 12 (push_bit j 1) else 0)"
  using assms by (simp add: nth_flip_bit_at del: push_bit_of_1)

lemma flip_breaks_relation:
  assumes "length ws = 7" and "crc_relation_low ws" and "i < 7" and "j < 16"
  shows "\<not> crc_relation_low (flip_bit_at i j ws)"
proof
  assume "crc_relation_low (flip_bit_at i j ws)"
  then have "crc_nibble (spec_words ws) XOR crc_nibble (unit_words i j) =
             drop_bit 12 (ws ! 0) XOR (if i = 0 then drop_bit 12 (push_bit j 1) else 0)"
    using assms(1,3)
    by (simp only: crc_relation_low_def spec_crc_low_nibble flip_words flip_stored
          crc_nibble_xor length_spec_words length_unit_words)
  moreover have "crc_nibble (spec_words ws) = drop_bit 12 (ws ! 0)"
    using assms(2) by (simp only: crc_relation_low_def spec_crc_low_nibble)
  ultimately have "crc_nibble (unit_words i j) =
                   (if i = 0 then drop_bit 12 (push_bit j 1) else 0)"
    by (simp only: xor_cancel_word)
  with unit_words_nibble [OF assms(3,4)] show False by simp
qed

lemma stored_nibble_cast:
  "(uint (x :: uint16_t) = uint (ucast (drop_bit 12 (w AND 0xF000 :: uint16_t)) :: uint8_t)) =
   (x = drop_bit 12 w)"
proof -
  have m: "(0xF000 :: uint16_t) = push_bit 12 (mask 4)"
    by (simp add: mask_eq_exp_minus_1)
  have a: "drop_bit 12 (w AND 0xF000) = drop_bit 12 w"
    unfolding m by (rule bit_word_eqI) (auto simp: bit_simps dest: bit_imp_le_length)
  have "unat (drop_bit 12 w) = unat w div 2 ^ 12"
    by (simp add: drop_bit_eq_div unat_div)
  moreover have "unat w < 2 ^ 16"
    using unsigned_less [of w] by simp
  ultimately have "unat (drop_bit 12 w) < 2 ^ 8" by simp
  then have "take_bit 8 (unat (drop_bit 12 w)) = unat (drop_bit 12 w)"
    by (rule take_bit_nat_eq_self)
  moreover have "unat (ucast (drop_bit 12 w) :: uint8_t) = take_bit 8 (unat (drop_bit 12 w))"
    by (simp add: unsigned_ucast_eq)
  ultimately have "uint (ucast (drop_bit 12 w) :: uint8_t) = uint (drop_bit 12 w)"
    by (simp only: uint_nat)
  then show ?thesis
    by (simp only: a word_uint_eq_iff)
qed

lemma init_crc_ok_relation:
  assumes "length ws = 7"
  shows "init_crc_ok (ws @ [x]) = Some (crc_relation_low ws)"
proof -
  have "psensor_crc_check (ws @ [x]) crc =
        Some (uint (spec_crc_low ws) = uint crc, (ws @ [x])[7 := 0])" for crc
    using assms crc_check_spec [of "ws @ [x]" crc] by simp
  moreover have "(ws @ [x]) ! 0 = ws ! 0"
    using assms by (simp add: nth_append)
  ultimately show ?thesis
    by (simp only: init_crc_ok_def crc_relation_low_def stored_nibble_cast option.map fst_conv)
qed

text \<open>
  Claim C2, as stated: \<open>_psensor_crc_check\<close> returns true if and only if the nibble
  computed with each byte XORed into the high byte of the remainder equals the \<open>crc\<close>
  argument. It fails on the words 0xE234, 1, 2, 3, 4, 5, 6 with \<open>crc = 14\<close>: the
  function returns true, the nibble of the stated algorithm is 3.
\<close>

theorem crc_high_byte_counterexample:
  "map_option fst (psensor_crc_check [0xE234, 1, 2, 3, 4, 5, 6, 0] 14) = Some True \<and>
   spec_crc_high [0xE234, 1, 2, 3, 4, 5, 6] = 3"
proof -
  have "map_option fst (psensor_crc_check [0xE234, 1, 2, 3, 4, 5, 6, 0] 14) = Some True"
    by code_simp
  moreover have "spec_crc_high [0xE234, 1, 2, 3, 4, 5, 6] = 3"
    by (simp add: spec_crc_high_def spec_bytes_def spec_words_def spec_steps_eq) code_simp
  ultimately show ?thesis by (rule conjI)
qed

text \<open>
  Claim C2, amended: for every array of at least 8 words and every \<open>crc\<close> argument,
  \<open>_psensor_crc_check\<close> returns true if and only if \<open>crc\<close> equals the nibble computed
  as the specification says, with each byte XORed into the low byte of the 16-bit
  remainder: word0 masked with 0x0FFF, the 8th word set to 0, the 16 bytes high byte
  first, 8 shift steps per byte, the remainder shifted right by 12.
\<close>

theorem crc_check_computes_spec_low:
  "8 \<le> length n_prom \<Longrightarrow>
   map_option fst (psensor_crc_check n_prom crc) =
     Some (uint (spec_crc_low (take 7 n_prom)) = uint crc)"
  by (simp add: crc_check_spec)

theorem crc_check_computes_spec_low_witness:
  "map_option fst (psensor_crc_check [0xE234, 1, 2, 3, 4, 5, 6, 0x7777] 14) = Some True \<and>
   spec_crc_low [0xE234, 1, 2, 3, 4, 5, 6] = 14"
proof -
  have len: "8 \<le> length [0xE234, 1, 2, 3, 4, 5, 6, 0x7777 :: uint16_t]" by simp
  have val: "spec_crc_low [0xE234, 1, 2, 3, 4, 5, 6] = 14"
    by (simp add: spec_crc_low_def spec_bytes_def spec_words_def spec_steps_eq) code_simp
  from crc_check_computes_spec_low [OF len, of 14] val show ?thesis by simp
qed

text \<open>
  Claim C10: on an array of at least 8 elements \<open>_psensor_crc_check\<close> returns with
  element 0 equal to its original value, elements 1 to 6 unchanged and element 7
  overwritten with 0 (the array is the original one with element 7 set to 0); on a
  shorter array the write of element 7 is out of bounds.
\<close>

theorem crc_check_frame:
  "(length n_prom < 8 \<longrightarrow> psensor_crc_check n_prom crc = None) \<and>
   (8 \<le> length n_prom \<longrightarrow>
      (\<exists>ok n_prom'. psensor_crc_check n_prom crc = Some (ok, n_prom') \<and>
         n_prom' = n_prom[7 := 0] \<and>
         n_prom' ! 0 = n_prom ! 0 \<and>
         (\<forall>i. 1 \<le> i \<and> i \<le> 6 \<longrightarrow> n_prom' ! i = n_prom ! i) \<and>
         n_prom' ! 7 = 0))"
proof (intro conjI impI)
  assume "length n_prom < 8"
  then show "psensor_crc_check n_prom crc = None"
    by (simp add: psensor_crc_check_def)
next
  assume "8 \<le> length n_prom"
  then show "\<exists>ok n_prom'. psensor_crc_check n_prom crc = Some (ok, n_prom') \<and>
         n_prom' = n_prom[7 := 0] \<and>
         n_prom' ! 0 = n_prom ! 0 \<and>
         (\<forall>i. 1 \<le> i \<and> i \<le> 6 \<longrightarrow> n_prom' ! i = n_prom ! i) \<and>
         n_prom' ! 7 = 0"
    by (simp add: crc_check_spec)
qed

theorem crc_check_frame_witness:
  "psensor_crc_check [0xE234, 1, 2, 3, 4, 5, 6] 14 = None \<and>
   (\<exists>ok. psensor_crc_check [0xE234, 1, 2, 3, 4, 5, 6, 0x7777] 14 =
           Some (ok, [0xE234, 1, 2, 3, 4, 5, 6, 0]))"
  using crc_check_frame [of "[0xE234, 1, 2, 3, 4, 5, 6]" 14]
    crc_check_frame [of "[0xE234, 1, 2, 3, 4, 5, 6, 0x7777]" 14]
  by simp

section \<open>Calibration loading\<close>

lemma wtr_trace:
  "trace (snd (snd (i2c_write_then_read w n r bus))) = trace bus @ [WriteThenRead w n]"
  by (simp add: i2c_write_then_read_def split: list.splits bus_reply.splits)

lemma wtr_replies:
  "replies (snd (snd (i2c_write_then_read w n r bus))) = tl (replies bus)"
  by (simp add: i2c_write_then_read_def split: list.splits bus_reply.splits)

lemma wtr_length:
  "n \<le> length r \<Longrightarrow> length (fst (snd (i2c_write_then_read w n r bus))) = length r"
  by (simp add: i2c_write_then_read_def split: list.splits bus_reply.splits)

lemma wtr_ack:
  "replies bus = Ack bs # rs \<Longrightarrow> length bs = n \<Longrightarrow>
   i2c_write_then_read w n r bus =
     (True, bs @ drop n r, bus\<lparr>replies := rs, trace := trace bus @ [WriteThenRead w n]\<rparr>)"
  by (simp add: i2c_write_then_read_def)

lemma wtr_nack:
  "replies bus = Nack # rs \<Longrightarrow>
   i2c_write_then_read w n r bus =
     (False, r, bus\<lparr>replies := rs, trace := trace bus @ [WriteThenRead w n]\<rparr>)"
  by (simp add: i2c_write_then_read_def)

lemma prom_step_frame:
  assumes "length t = 2"
  shows "length (fst (prom_step c i t b bus)) = 2"
    and "length (fst (snd (prom_step c i t b bus))) = length b"
    and "trace (snd (snd (prom_step c i t b bus))) =
         trace bus @ [WriteThenRead [PROM_ADDRESS_READ_ADDRESS_0 c + 2 * of_nat i] 2]"
    and "replies (snd (snd (prom_step c i t b bus))) = tl (replies bus)"
proof -
  have t: "take 1 (t[0 := x]) = [x]" for x
    using assms by (cases t) simp_all
  show "length (fst (prom_step c i t b bus)) = 2"
    using assms by (simp add: prom_step_def Let_def wtr_length)
  show "length (fst (snd (prom_step c i t b bus))) = length b"
    by (simp add: prom_step_def Let_def)
  show "trace (snd (snd (prom_step c i t b bus))) =
         trace bus @ [WriteThenRead [PROM_ADDRESS_READ_ADDRESS_0 c + 2 * of_nat i] 2]"
    using t by (simp add: prom_step_def Let_def wtr_trace)
  show "replies (snd (snd (prom_step c i t b bus))) = tl (replies bus)"
    by (simp add: prom_step_def Let_def wtr_replies)
qed

lemma prom_loop_frame:
  "length t = 2 \<Longrightarrow>
   length (fst (snd (prom_loop c i t b bus))) = length b \<and>
   trace (snd (snd (prom_loop c i t b bus))) =
     trace bus @ map (\<lambda>k. WriteThenRead [PROM_ADDRESS_READ_ADDRESS_0 c + 2 * of_nat k] 2) [i..<7]"
proof (induction c i t b bus rule: prom_loop.induct)
  case (1 c i tmp_buffer buffer bus)
  show ?case
  proof (cases "i < 7")
    case True
    obtain t' b' bus' where s: "prom_step c i tmp_buffer buffer bus = (t', b', bus')"
      by (cases "prom_step c i tmp_buffer buffer bus") auto
    from prom_step_frame [OF "1.prems", of c i buffer bus] s
    have f: "length t' = 2" "length b' = length buffer"
      "trace bus' = trace bus @ [WriteThenRead [PROM_ADDRESS_READ_ADDRESS_0 c + 2 * of_nat i] 2]"
      by simp_all
    from "1.IH" [OF True s [symmetric] refl f(1)] f(2,3) True s
    show ?thesis
      by (simp add: prom_loop.simps [of c i] upt_conv_Cons)
  next
    case False
    then show ?thesis by (simp add: prom_loop.simps [of c i])
  qed
qed

lemma word_assemble:
  "push_bit 8 (ucast (ucast (drop_bit 8 w) :: uint8_t)) OR ucast (ucast w :: uint8_t) = (w :: uint16_t)"
  by (rule bit_word_eqI) (auto simp: bit_simps dest: bit_imp_le_length)

lemma update_twice:
  "b[i := f (b[i := x] ! i)] = b[i := f x]"
  by (cases "i < length b") (simp_all add: list_update_beyond)

lemma prom_step_ack:
  "replies bus = prom_reply w # rs \<Longrightarrow>
   prom_step c i [t0, t1] b bus =
     ([ucast (drop_bit 8 w), ucast w], b[i := w],
      bus\<lparr>replies := rs,
          trace := trace bus @ [WriteThenRead [PROM_ADDRESS_READ_ADDRESS_0 c + 2 * of_nat i] 2]\<rparr>)"
  using update_twice [of b i "\<lambda>v. v OR ucast (ucast w :: uint8_t)"]
  by (simp add: prom_step_def Let_def prom_reply_def wtr_ack word_assemble)

lemma list7_cases:
  assumes "length (ws :: 'a list) = 7"
  obtains w0 w1 w2 w3 w4 w5 w6 where "ws = [w0, w1, w2, w3, w4, w5, w6]"
proof -
  from assms obtain w0 t0 where "ws = w0 # t0" "length t0 = 6" by (cases ws) auto
  moreover then obtain w1 t1 where "t0 = w1 # t1" "length t1 = 5" by (cases t0) auto
  moreover then obtain w2 t2 where "t1 = w2 # t2" "length t2 = 4" by (cases t1) auto
  moreover then obtain w3 t3 where "t2 = w3 # t3" "length t3 = 3" by (cases t2) auto
  moreover then obtain w4 t4 where "t3 = w4 # t4" "length t4 = 2" by (cases t3) auto
  moreover then obtain w5 t5 where "t4 = w5 # t5" "length t5 = 1" by (cases t4) auto
  moreover then obtain w6 t6 where "t5 = w6 # t6" "length t6 = 0" by (cases t5) auto
  ultimately show thesis using that by simp
qed

lemma prom_loop_acks:
  assumes "replies bus = map prom_reply [w0, w1, w2, w3, w4, w5, w6] @ rest"
  shows "fst (snd (prom_loop c 0 [t0, t1] [b0, b1, b2, b3, b4, b5, b6, b7] bus)) =
         [w0, w1, w2, w3, w4, w5, w6, b7]"
  using assms
  by (simp add: prom_loop.simps prom_step_ack)

lemma init_char:
  "ms8607_init c dev bus sensor_id tmp_buffer0 buffer0 =
     (if init_crc_ok (prom_buffer c bus tmp_buffer0 buffer0) = Some True
      then Some (True,
             dev\<lparr>press_sens := prom_buffer c bus tmp_buffer0 buffer0 ! 1,
                 press_offset := prom_buffer c bus tmp_buffer0 buffer0 ! 2,
                 press_sens_temp_coeff := prom_buffer c bus tmp_buffer0 buffer0 ! 3,
                 press_offset_temp_coeff := prom_buffer c bus tmp_buffer0 buffer0 ! 4,
                 ref_temp := prom_buffer c bus tmp_buffer0 buffer0 ! 5,
                 temp_temp_coeff := prom_buffer c bus tmp_buffer0 buffer0 ! 6,
                 psensor_resolution_osr := MS8607_PRESSURE_RESOLUTION_OSR_8192 c\<rparr>,
             prom_bus c bus tmp_buffer0 buffer0)
      else Some (False, dev, prom_bus c bus tmp_buffer0 buffer0))"
proof -
  obtain T B bus' where
    l: "prom_loop c 0 (map tmp_buffer0 [0..<2]) (map buffer0 [0..<8]) bus = (T, B, bus')"
    by (cases "prom_loop c 0 (map tmp_buffer0 [0..<2]) (map buffer0 [0..<8]) bus") auto
  have "length B = 8"
    using prom_loop_frame [of "map tmp_buffer0 [0..<2]" c 0 "map buffer0 [0..<8]" bus] l
    by simp
  then have len: "8 \<le> length B" by simp
  show ?thesis
    using \<open>length B = 8\<close>
    by (simp add: ms8607_init_def prom_buffer_def prom_bus_def l init_crc_ok_def
          crc_check_spec [OF len])
qed

lemma prom_buffer_acks:
  assumes "length ws = 7" and "replies bus = map prom_reply ws @ rest"
  shows "prom_buffer c bus tmp_buffer0 buffer0 = ws @ [buffer0 7]"
proof -
  from assms(1) obtain w0 w1 w2 w3 w4 w5 w6 where ws: "ws = [w0, w1, w2, w3, w4, w5, w6]"
    by (rule list7_cases)
  have "map tmp_buffer0 [0..<2] = [tmp_buffer0 0, tmp_buffer0 1]"
    by (simp add: upt_rec eval_nat_numeral)
  moreover have "map buffer0 [0..<8] =
      [buffer0 0, buffer0 1, buffer0 2, buffer0 3, buffer0 4, buffer0 5, buffer0 6, buffer0 7]"
    by (simp add: upt_rec eval_nat_numeral)
  ultimately show ?thesis
    using prom_loop_acks [of bus w0 w1 w2 w3 w4 w5 w6 rest c] assms(2)
    by (simp add: prom_buffer_def ws)
qed

text \<open>
  Claim C9, as stated: a vector that satisfies the CRC relation of section 4.1 passes the
  check, and each of its single-bit flips fails it. The words 0x3234, 1, 2, 3, 4, 5, 6
  satisfy the relation as section 4.1 words it (the nibble computed with each byte XORed
  into the high byte is 3, the stored nibble), and the check of line 92 rejects them;
  with bit 1 of word 6 flipped (6 becomes 4) the check accepts them.
\<close>

theorem crc_relation_as_worded_counterexample:
  "crc_relation [0x3234, 1, 2, 3, 4, 5, 6] \<and>
   init_crc_ok ([0x3234, 1, 2, 3, 4, 5, 6] @ [0]) = Some False \<and>
   flip_bit_at 6 1 [0x3234, 1, 2, 3, 4, 5, 6] = [0x3234, 1, 2, 3, 4, 5, 4] \<and>
   init_crc_ok (flip_bit_at 6 1 [0x3234, 1, 2, 3, 4, 5, 6] @ [0]) = Some True"
proof -
  have "spec_crc_high [0x3234, 1, 2, 3, 4, 5, 6] = 3"
    by (simp add: spec_crc_high_def spec_bytes_def spec_words_def spec_steps_eq) code_simp
  then have 1: "crc_relation [0x3234, 1, 2, 3, 4, 5, 6]"
    by (simp add: crc_relation_def)
  have 2: "init_crc_ok ([0x3234, 1, 2, 3, 4, 5, 6] @ [0]) = Some False"
    by code_simp
  have 3: "flip_bit_at 6 1 [0x3234, 1, 2, 3, 4, 5, 6] = [0x3234, 1, 2, 3, 4, 5, 4 :: uint16_t]"
    by (simp add: flip_bit_at_def)
  have "init_crc_ok ([0x3234, 1, 2, 3, 4, 5, 4] @ [0]) = Some True"
    by code_simp
  then have 4: "init_crc_ok (flip_bit_at 6 1 [0x3234, 1, 2, 3, 4, 5, 6] @ [0]) = Some True"
    by (simp only: 3)
  from 1 2 3 4 show ?thesis by (intro conjI)
qed

text \<open>
  Claim C9, amended: for every vector of 7 words whose top nibble of word0 equals the
  nibble computed as in section 4.1 with each byte XORed into the low byte of the
  remainder, the check of line 92 succeeds, and \<open>_init\<close> succeeds and stores words 1 to 6
  and the resolution when the bus delivers these words; after a flip of any one bit \<open>j\<close>
  (0 to 15) of any one word \<open>i\<close> (0 to 6) of such a vector, 112 bit positions in all and
  the bits of the stored nibble among them, the check fails, and \<open>_init\<close> fails and leaves
  the device object as it was when the bus delivers the flipped words.
\<close>

theorem crc_accepts_valid_rejects_bit_flips:
  assumes "length ws = 7" and "crc_relation_low ws"
  shows "init_crc_ok (ws @ [b7]) = Some True \<and>
         (replies bus = map prom_reply ws @ rest \<longrightarrow>
            ms8607_init c dev bus sensor_id tmp_buffer0 buffer0 =
              Some (True,
                    dev\<lparr>press_sens := ws ! 1,
                        press_offset := ws ! 2,
                        press_sens_temp_coeff := ws ! 3,
                        press_offset_temp_coeff := ws ! 4,
                        ref_temp := ws ! 5,
                        temp_temp_coeff := ws ! 6,
                        psensor_resolution_osr := MS8607_PRESSURE_RESOLUTION_OSR_8192 c\<rparr>,
                    prom_bus c bus tmp_buffer0 buffer0)) \<and>
         (\<forall>i j. i < 7 \<and> j < 16 \<longrightarrow>
            init_crc_ok (flip_bit_at i j ws @ [b7]) = Some False \<and>
            (replies bus = map prom_reply (flip_bit_at i j ws) @ rest \<longrightarrow>
               ms8607_init c dev bus sensor_id tmp_buffer0 buffer0 =
                 Some (False, dev, prom_bus c bus tmp_buffer0 buffer0)))"
proof (intro conjI allI impI)
  show "init_crc_ok (ws @ [b7]) = Some True"
    using assms by (simp add: init_crc_ok_relation)
next
  assume "replies bus = map prom_reply ws @ rest"
  then have "prom_buffer c bus tmp_buffer0 buffer0 = ws @ [buffer0 7]"
    using assms(1) by (rule prom_buffer_acks [rotated])
  then show "ms8607_init c dev bus sensor_id tmp_buffer0 buffer0 =
              Some (True,
                    dev\<lparr>press_sens := ws ! 1,
                        press_offset := ws ! 2,
                        press_sens_temp_coeff := ws ! 3,
                        press_offset_temp_coeff := ws ! 4,
                        ref_temp := ws ! 5,
                        temp_temp_coeff := ws ! 6,
                        psensor_resolution_osr := MS8607_PRESSURE_RESOLUTION_OSR_8192 c\<rparr>,
                    prom_bus c bus tmp_buffer0 buffer0)"
    using assms by (simp add: init_char init_crc_ok_relation nth_append)
next
  fix i j :: nat
  assume ij: "i < 7 \<and> j < 16"
  have l: "length (flip_bit_at i j ws) = 7"
    using assms(1) by (simp add: flip_bit_at_def)
  have n: "\<not> crc_relation_low (flip_bit_at i j ws)"
    using assms ij by (simp add: flip_breaks_relation)
  show "init_crc_ok (flip_bit_at i j ws @ [b7]) = Some False"
    using l n by (simp add: init_crc_ok_relation)
  assume "replies bus = map prom_reply (flip_bit_at i j ws) @ rest"
  then have "prom_buffer c bus tmp_buffer0 buffer0 = flip_bit_at i j ws @ [buffer0 7]"
    using l by (rule prom_buffer_acks [rotated])
  then show "ms8607_init c dev bus sensor_id tmp_buffer0 buffer0 =
                 Some (False, dev, prom_bus c bus tmp_buffer0 buffer0)"
    using l n by (simp add: init_char init_crc_ok_relation)
qed

theorem crc_accepts_valid_rejects_bit_flips_witness:
  "init_crc_ok ([0x8000, 46372, 43981, 29059, 27842, 31553, 28165] @ [0]) = Some True \<and>
   map_option (\<lambda>r. (fst r, press_sens (fst (snd r)), temp_temp_coeff (fst (snd r))))
     (ms8607_init datasheet_consts (datasheet_dev\<lparr>press_sens := 0, temp_temp_coeff := 0\<rparr>)
        \<lparr>replies = map prom_reply [0x8000, 46372, 43981, 29059, 27842, 31553, 28165] @ [],
         trace = []\<rparr> 0 (\<lambda>_. 0) (\<lambda>_. 0)) = Some (True, 46372, 28165) \<and>
   init_crc_ok (flip_bit_at 3 5 [0x8000, 46372, 43981, 29059, 27842, 31553, 28165] @ [0]) =
     Some False"
proof -
  have len: "length [0x8000, 46372, 43981, 29059, 27842, 31553, 28165 :: uint16_t] = 7"
    by simp
  have "spec_crc_low [0x8000, 46372, 43981, 29059, 27842, 31553, 28165] = 8"
    by (simp add: spec_crc_low_def spec_bytes_def spec_words_def spec_steps_eq) code_simp
  then have rel: "crc_relation_low [0x8000, 46372, 43981, 29059, 27842, 31553, 28165]"
    by (simp add: crc_relation_low_def)
  have b: "replies \<lparr>replies =
             map prom_reply [0x8000, 46372, 43981, 29059, 27842, 31553, 28165] @ [],
             trace = []\<rparr> =
           map prom_reply [0x8000, 46372, 43981, 29059, 27842, 31553, 28165] @ []"
    by simp
  note t = crc_accepts_valid_rejects_bit_flips [OF len rel,
      where ?b7.0 = 0 and c = datasheet_consts
        and dev = "datasheet_dev\<lparr>press_sens := 0, temp_temp_coeff := 0\<rparr>"
        and sensor_id = 0
        and ?tmp_buffer0.0 = "\<lambda>_. 0" and ?buffer0.0 = "\<lambda>_. 0" and rest = "[]"
        and bus = "\<lparr>replies =
             map prom_reply [0x8000, 46372, 43981, 29059, 27842, 31553, 28165] @ [],
             trace = []\<rparr>"]
  from t have 1: "init_crc_ok ([0x8000, 46372, 43981, 29059, 27842, 31553, 28165] @ [0]) =
      Some True"
    by (rule conjunct1)
  from t have "replies \<lparr>replies =
             map prom_reply [0x8000, 46372, 43981, 29059, 27842, 31553, 28165] @ [],
             trace = []\<rparr> =
           map prom_reply [0x8000, 46372, 43981, 29059, 27842, 31553, 28165] @ [] \<longrightarrow>
      ms8607_init datasheet_consts (datasheet_dev\<lparr>press_sens := 0, temp_temp_coeff := 0\<rparr>)
        \<lparr>replies = map prom_reply [0x8000, 46372, 43981, 29059, 27842, 31553, 28165] @ [],
         trace = []\<rparr> 0 (\<lambda>_. 0) (\<lambda>_. 0) =
      Some (True,
            datasheet_dev\<lparr>press_sens := 0, temp_temp_coeff := 0,
              press_sens := [0x8000, 46372, 43981, 29059, 27842, 31553, 28165] ! 1,
              press_offset := [0x8000, 46372, 43981, 29059, 27842, 31553, 28165] ! 2,
              press_sens_temp_coeff := [0x8000, 46372, 43981, 29059, 27842, 31553, 28165] ! 3,
              press_offset_temp_coeff := [0x8000, 46372, 43981, 29059, 27842, 31553, 28165] ! 4,
              ref_temp := [0x8000, 46372, 43981, 29059, 27842, 31553, 28165] ! 5,
              temp_temp_coeff := [0x8000, 46372, 43981, 29059, 27842, 31553, 28165] ! 6,
              psensor_resolution_osr := MS8607_PRESSURE_RESOLUTION_OSR_8192 datasheet_consts\<rparr>,
            prom_bus datasheet_consts
              \<lparr>replies = map prom_reply [0x8000, 46372, 43981, 29059, 27842, 31553, 28165] @ [],
               trace = []\<rparr> (\<lambda>_. 0) (\<lambda>_. 0))"
    by (rule conjunct1 [OF conjunct2])
  with b have 2: "map_option
      (\<lambda>r. (fst r, press_sens (fst (snd r)), temp_temp_coeff (fst (snd r))))
     (ms8607_init datasheet_consts (datasheet_dev\<lparr>press_sens := 0, temp_temp_coeff := 0\<rparr>)
        \<lparr>replies = map prom_reply [0x8000, 46372, 43981, 29059, 27842, 31553, 28165] @ [],
         trace = []\<rparr> 0 (\<lambda>_. 0) (\<lambda>_. 0)) = Some (True, 46372, 28165)"
    by simp
  from t have "(3::nat) < 7 \<and> (5::nat) < 16 \<longrightarrow>
      init_crc_ok (flip_bit_at 3 5 [0x8000, 46372, 43981, 29059, 27842, 31553, 28165] @ [0]) =
        Some False"
    by blast
  then have 3: "init_crc_ok
      (flip_bit_at 3 5 [0x8000, 46372, 43981, 29059, 27842, 31553, 28165] @ [0]) = Some False"
    by simp
  from 1 2 3 show ?thesis by (intro conjI)
qed

text \<open>
  Claim C7: if the CRC check of line 92 fails, \<open>_init\<close> returns false and the device
  object is left as it was: no calibration constant and not the resolution setting is
  written. When \<open>_init\<close> returns true, the check has succeeded on the words stored.
\<close>

theorem init_crc_failure_writes_nothing:
  "(init_crc_ok (prom_buffer c bus tmp_buffer0 buffer0) = Some False \<longrightarrow>
      ms8607_init c dev bus sensor_id tmp_buffer0 buffer0 =
        Some (False, dev, prom_bus c bus tmp_buffer0 buffer0)) \<and>
   (\<forall>dev' bus'. ms8607_init c dev bus sensor_id tmp_buffer0 buffer0 = Some (True, dev', bus') \<longrightarrow>
      init_crc_ok (prom_buffer c bus tmp_buffer0 buffer0) = Some True)"
  by (simp add: init_char)

theorem init_crc_failure_writes_nothing_witness:
  "init_crc_ok (prom_buffer datasheet_consts
      \<lparr>replies = map prom_reply [0x7000, 46372, 43981, 29059, 27842, 31553, 28165], trace = []\<rparr>
      (\<lambda>_. 0) (\<lambda>_. 0)) = Some False \<and>
   map_option (\<lambda>r. (fst r, fst (snd r)))
     (ms8607_init datasheet_consts datasheet_dev
        \<lparr>replies = map prom_reply [0x7000, 46372, 43981, 29059, 27842, 31553, 28165], trace = []\<rparr>
        0 (\<lambda>_. 0) (\<lambda>_. 0)) = Some (False, datasheet_dev)"
proof -
  have b: "prom_buffer datasheet_consts
      \<lparr>replies = map prom_reply [0x7000, 46372, 43981, 29059, 27842, 31553, 28165], trace = []\<rparr>
      (\<lambda>_. 0) (\<lambda>_. 0) = [0x7000, 46372, 43981, 29059, 27842, 31553, 28165] @ [0]"
    by (rule prom_buffer_acks [where rest = "[]"]) simp_all
  have "init_crc_ok ([0x7000, 46372, 43981, 29059, 27842, 31553, 28165] @ [0]) = Some False"
    by code_simp
  with b have h: "init_crc_ok (prom_buffer datasheet_consts
      \<lparr>replies = map prom_reply [0x7000, 46372, 43981, 29059, 27842, 31553, 28165], trace = []\<rparr>
      (\<lambda>_. 0) (\<lambda>_. 0)) = Some False"
    by simp
  from init_crc_failure_writes_nothing [of datasheet_consts
      "\<lparr>replies = map prom_reply [0x7000, 46372, 43981, 29059, 27842, 31553, 28165], trace = []\<rparr>"
      "\<lambda>_. 0" "\<lambda>_. 0" datasheet_dev 0] h
  show ?thesis by simp
qed

text \<open>
  Claim C3 fails on the code. With the data sheet's command bytes, the first six PROM
  reads deliver the words 0x4000, 46372, 43981, 29059, 27842, 31553 and the seventh read
  is not acknowledged. \<open>_init\<close> drops the result of \<open>write_then_read\<close> (line 87):
  \<open>tmp_buffer\<close> still holds the command byte 0xAC and the low byte 0x41 of the sixth
  word, the word 0xAC41 is assembled from them, the CRC check is made and passes, and
  \<open>_init\<close> returns true with 0xAC41 stored as \<open>temp_temp_coeff\<close>.
\<close>

theorem init_succeeds_after_failed_prom_read:
  "ms8607_init datasheet_consts datasheet_dev
     \<lparr>replies = map prom_reply [0x4000, 46372, 43981, 29059, 27842, 31553] @ [Nack],
      trace = []\<rparr> 0 (\<lambda>_. 0) (\<lambda>_. 0) =
   Some (True,
         datasheet_dev\<lparr>temp_temp_coeff := 0xAC41\<rparr>,
         \<lparr>replies = [],
          trace = [WriteThenRead [0xA0] 2, WriteThenRead [0xA2] 2, WriteThenRead [0xA4] 2,
                   WriteThenRead [0xA6] 2, WriteThenRead [0xA8] 2, WriteThenRead [0xAA] 2,
                   WriteThenRead [0xAC] 2]\<rparr>)"
  by code_simp

section \<open>The read cycle\<close>

lemma write_trace: "trace (snd (i2c_write b bus)) = trace bus @ [Write b]"
  by (simp add: i2c_write_def split: list.splits bus_reply.splits)

lemma write_replies: "replies (snd (i2c_write b bus)) = tl (replies bus)"
  by (simp add: i2c_write_def split: list.splits bus_reply.splits)

lemma delay_trace: "trace (delay ms bus) = trace bus @ [Delay ms]"
  by (simp add: delay_def)

lemma delay_replies: "replies (delay ms bus) = replies bus"
  by (simp add: delay_def)

lemma buffer0_list: "map buffer0 [0..<3] = [buffer0 0, buffer0 1, buffer0 2]"
  by (simp add: upt_rec eval_nat_numeral)

lemma read_adc_trace:
  "trace (snd (snd (snd (read_adc c dev bus status0 buffer0)))) =
   trace bus @
   [Write [psensor_resolution_osr dev * 2 OR PSENSOR_START_TEMPERATURE_ADC_CONVERSION c],
    Delay 18,
    WriteThenRead [PSENSOR_READ_ADC c] 3,
    Write [psensor_resolution_osr dev * 2 OR PSENSOR_START_PRESSURE_ADC_CONVERSION c],
    Delay 18,
    WriteThenRead [PSENSOR_READ_ADC c] 3]"
proof -
  have t: "take (Suc 0) (b[0 := x]) = [x]" if "length b = 3" for b :: "uint8_t list" and x
    using that by (cases b) simp_all
  have l: "length (fst (snd (i2c_write_then_read w 3 r s))) = 3"
    if "length r = 3" for r :: "uint8_t list" and w s
    using that by (simp add: wtr_length)
  show ?thesis
    by (simp add: read_adc_def Let_def buffer0_list write_trace delay_trace wtr_trace t l)
qed

lemma read_adc_values:
  assumes "replies bus = r1 # Ack [t0, t1, t2] # r3 # Ack [p0, p1, p2] # rest"
  shows "fst (snd (read_adc c dev bus status0 buffer0)) = adc_value [t0, t1, t2]"
    and "fst (snd (snd (read_adc c dev bus status0 buffer0))) = adc_value [p0, p1, p2]"
proof -
  have 1: "replies (delay 18 (snd (i2c_write w bus))) = Ack [t0, t1, t2] # r3 # Ack [p0, p1, p2] # rest"
    for w by (simp add: delay_replies write_replies assms)
  show "fst (snd (read_adc c dev bus status0 buffer0)) = adc_value [t0, t1, t2]"
    by (simp add: read_adc_def Let_def wtr_ack [OF 1])
  show "fst (snd (snd (read_adc c dev bus status0 buffer0))) = adc_value [p0, p1, p2]"
    by (simp add: read_adc_def Let_def wtr_ack [OF 1] delay_replies write_replies wtr_ack)
qed

lemma adc_or_low: "push_bit 8 (ucast (b1 :: uint8_t)) OR ucast (b2 :: uint8_t) = (push_bit 8 (ucast b1) + ucast b2 :: uint32_t)"
  by (rule disjunctive_add [symmetric]) (auto simp: bit_simps dest: bit_imp_le_length)

lemma adc_or_high: "push_bit 16 (ucast (b0 :: uint8_t)) OR (push_bit 8 (ucast (b1 :: uint8_t)) + ucast (b2 :: uint8_t)) = (push_bit 16 (ucast b0) + (push_bit 8 (ucast b1) + ucast b2) :: uint32_t)"
  unfolding adc_or_low [symmetric]
  by (rule disjunctive_add [symmetric]) (auto simp: bit_simps dest: bit_imp_le_length)

lemma uint_byte: "uint (ucast (b :: uint8_t) :: uint32_t) = uint b"
  by (simp add: uint_up_ucast is_up)

lemma uint_byte_shift8: "uint (push_bit 8 (ucast (b :: uint8_t)) :: uint32_t) = uint b * 256"
proof -
  have "uint b < 256" using uint_lt2p [of b] by simp
  then have "uint b * 256 mod 4294967296 = uint b * 256"
    by (intro mod_pos_pos_trivial) simp_all
  then show ?thesis
    by (simp add: push_bit_eq_mult uint_word_ariths uint_byte)
qed

lemma uint_byte_shift16: "uint (push_bit 16 (ucast (b :: uint8_t)) :: uint32_t) = uint b * 65536"
proof -
  have "uint b < 256" using uint_lt2p [of b] by simp
  then have "uint b * 65536 mod 4294967296 = uint b * 65536"
    by (intro mod_pos_pos_trivial) simp_all
  then show ?thesis
    by (simp add: push_bit_eq_mult uint_word_ariths uint_byte)
qed

lemma adc_value_uint:
  "uint (adc_value [b0, b1, b2]) = uint b0 * 65536 + uint b1 * 256 + uint b2"
proof -
  have b: "uint b0 < 256" "uint b1 < 256" "uint b2 < 256"
    using uint_lt2p [of b0] uint_lt2p [of b1] uint_lt2p [of b2] by simp_all
  have "adc_value [b0, b1, b2] = push_bit 16 (ucast b0) + (push_bit 8 (ucast b1) + ucast b2)"
    by (simp add: adc_value_def adc_or_low adc_or_high or.assoc)
  then have "uint (adc_value [b0, b1, b2]) =
      (uint b0 * 65536 + (uint b1 * 256 + uint b2) mod 4294967296) mod 4294967296"
    by (simp add: uint_word_ariths uint_byte uint_byte_shift8 uint_byte_shift16)
  moreover have "(uint b1 * 256 + uint b2) mod 4294967296 = uint b1 * 256 + uint b2"
    using b by (intro mod_pos_pos_trivial) simp_all
  moreover have "(uint b0 * 65536 + (uint b1 * 256 + uint b2)) mod 4294967296 =
      uint b0 * 65536 + (uint b1 * 256 + uint b2)"
    using b by (intro mod_pos_pos_trivial) simp_all
  ultimately show ?thesis by simp
qed

lemma adc_value_range: "uint (adc_value [b0, b1, b2]) < 2 ^ 24"
proof -
  have b: "uint b0 < 256" "uint b1 < 256" "uint b2 < 256"
    using uint_lt2p [of b0] uint_lt2p [of b1] uint_lt2p [of b2] by simp_all
  then show ?thesis by (simp add: adc_value_uint)
qed

lemma read_adc_nacks:
  assumes "replies bus = Nack # Nack # Nack # Nack # rest"
  shows "read_adc c dev bus status0 buffer0 =
           (status0,
            adc_value [PSENSOR_READ_ADC c, buffer0 1, buffer0 2],
            adc_value [PSENSOR_READ_ADC c, buffer0 1, buffer0 2],
            snd (snd (snd (read_adc c dev bus status0 buffer0))))"
proof -
  have w: "i2c_write b s = (False, s\<lparr>replies := rs, trace := trace s @ [Write b]\<rparr>)"
    if "replies s = Nack # rs" for b s rs
    using that by (simp add: i2c_write_def)
  show ?thesis
    using assms
    by (simp add: read_adc_def Let_def buffer0_list w wtr_nack delay_def)
qed

lemma ms8607_read_proj:
  "ms8607_read F c dev bus status0 buffer0 =
     (fst (read_adc c dev bus status0 buffer0) \<noteq> 0,
      store_reading F
        (compensate dev (fst (snd (read_adc c dev bus status0 buffer0)))
           (fst (snd (snd (read_adc c dev bus status0 buffer0))))) dev,
      snd (snd (snd (read_adc c dev bus status0 buffer0))))"
  by (simp add: ms8607_read_def case_prod_beta)

text \<open>
  Claim C6: every read cycle, whatever the bus replies, issues the temperature
  start-conversion command, waits and reads 3 bytes back before it issues the pressure
  start-conversion command; each command byte is the resolution code times 2 OR-ed with
  the start-conversion flag of the channel; the raw value is the 3 bytes read, assembled
  big-endian into an unsigned value below 2^24.
\<close>

theorem read_cycle_temperature_before_pressure:
  "trace (snd (snd (ms8607_read F c dev bus status0 buffer0))) =
     trace bus @
     [Write [psensor_resolution_osr dev * 2 OR PSENSOR_START_TEMPERATURE_ADC_CONVERSION c],
      Delay 18,
      WriteThenRead [PSENSOR_READ_ADC c] 3,
      Write [psensor_resolution_osr dev * 2 OR PSENSOR_START_PRESSURE_ADC_CONVERSION c],
      Delay 18,
      WriteThenRead [PSENSOR_READ_ADC c] 3] \<and>
   (replies bus = r1 # Ack [t0, t1, t2] # r3 # Ack [p0, p1, p2] # rest \<longrightarrow>
      fst (snd (read_adc c dev bus status0 buffer0)) = adc_value [t0, t1, t2] \<and>
      fst (snd (snd (read_adc c dev bus status0 buffer0))) = adc_value [p0, p1, p2]) \<and>
   uint (adc_value [b0, b1, b2]) = uint b0 * 65536 + uint b1 * 256 + uint b2 \<and>
   uint (adc_value [b0, b1, b2]) < 2 ^ 24"
proof (intro conjI impI)
  show "trace (snd (snd (ms8607_read F c dev bus status0 buffer0))) =
     trace bus @
     [Write [psensor_resolution_osr dev * 2 OR PSENSOR_START_TEMPERATURE_ADC_CONVERSION c],
      Delay 18,
      WriteThenRead [PSENSOR_READ_ADC c] 3,
      Write [psensor_resolution_osr dev * 2 OR PSENSOR_START_PRESSURE_ADC_CONVERSION c],
      Delay 18,
      WriteThenRead [PSENSOR_READ_ADC c] 3]"
    by (simp add: ms8607_read_proj read_adc_trace)
next
  assume r: "replies bus = r1 # Ack [t0, t1, t2] # r3 # Ack [p0, p1, p2] # rest"
  show "fst (snd (read_adc c dev bus status0 buffer0)) = adc_value [t0, t1, t2]"
    using r by (rule read_adc_values)
  show "fst (snd (snd (read_adc c dev bus status0 buffer0))) = adc_value [p0, p1, p2]"
    using r by (rule read_adc_values)
next
  show "uint (adc_value [b0, b1, b2]) = uint b0 * 65536 + uint b1 * 256 + uint b2"
    by (rule adc_value_uint)
  show "uint (adc_value [b0, b1, b2]) < 2 ^ 24"
    by (rule adc_value_range)
qed

theorem read_cycle_temperature_before_pressure_witness:
  "trace (snd (snd (ms8607_read exact_float datasheet_consts datasheet_dev
      \<lparr>replies = [Ack [], Ack [0x7B, 0x41, 0x44], Ack [], Ack [0x62, 0xA7, 0xA4]], trace = []\<rparr>
      0 (\<lambda>_. 0)))) =
     [Write [0x5A], Delay 18, WriteThenRead [0x00] 3,
      Write [0x4A], Delay 18, WriteThenRead [0x00] 3] \<and>
   fst (snd (read_adc datasheet_consts datasheet_dev
      \<lparr>replies = [Ack [], Ack [0x7B, 0x41, 0x44], Ack [], Ack [0x62, 0xA7, 0xA4]], trace = []\<rparr>
      0 (\<lambda>_. 0))) = 8077636 \<and>
   fst (snd (snd (read_adc datasheet_consts datasheet_dev
      \<lparr>replies = [Ack [], Ack [0x7B, 0x41, 0x44], Ack [], Ack [0x62, 0xA7, 0xA4]], trace = []\<rparr>
      0 (\<lambda>_. 0)))) = 6465444"
proof -
  have v: "adc_value [0x7B, 0x41, 0x44] = 8077636" "adc_value [0x62, 0xA7, 0xA4] = 6465444"
    by (simp_all add: adc_value_def)
  have r: "replies \<lparr>replies = [Ack [], Ack [0x7B, 0x41, 0x44], Ack [], Ack [0x62, 0xA7, 0xA4]],
             trace = []\<rparr> =
           Ack [] # Ack [0x7B, 0x41, 0x44] # Ack [] # Ack [0x62, 0xA7, 0xA4] # []"
    by simp
  from read_cycle_temperature_before_pressure [of exact_float datasheet_consts datasheet_dev
      "\<lparr>replies = [Ack [], Ack [0x7B, 0x41, 0x44], Ack [], Ack [0x62, 0xA7, 0xA4]], trace = []\<rparr>"
      0 "\<lambda>_. 0" "Ack []" "0x7B" "0x41" "0x44" "Ack []" "0x62" "0xA7" "0xA4" "[]" 0 0 0] r v
  show ?thesis
    by (simp add: datasheet_consts_def datasheet_dev_def)
qed

text \<open>
  Claim C5 fails on the code. The temperature start-conversion write is not acknowledged,
  the other three transactions succeed: \<open>_read\<close> returns true, since \<open>status\<close> collects the
  results with OR (from an uninitialised value, here 0). With all four transactions
  failing \<open>getEvent\<close> returns true: it drops the result of \<open>_read\<close>.
\<close>

theorem read_reports_success_after_bus_failure:
  "fst (ms8607_read exact_float datasheet_consts datasheet_dev
      \<lparr>replies = [Nack, Ack [0x7B, 0x41, 0x44], Ack [], Ack [0x62, 0xA7, 0xA4]], trace = []\<rparr>
      0 (\<lambda>_. 0)) = True \<and>
   fst (getEvent exact_float datasheet_consts datasheet_dev
      \<lparr>replies = [Nack, Nack, Nack, Nack], trace = []\<rparr> 0 True True 0 (\<lambda>_. 0)) = True"
proof -
  have "fst (read_adc datasheet_consts datasheet_dev
      \<lparr>replies = [Nack, Ack [0x7B, 0x41, 0x44], Ack [], Ack [0x62, 0xA7, 0xA4]], trace = []\<rparr>
      0 (\<lambda>_. 0)) = 1"
    by code_simp
  then show ?thesis
    by (simp add: ms8607_read_proj getEvent_def case_prod_beta)
qed

text \<open>
  Claim C4, as stated: a read cycle with a bus failure leaves the cached values as they
  were. The device holds the reading 20.00 degrees Celsius, 1100.02 mbar (the reading of
  the data sheet's example, which a successful cycle computes and caches). First all four
  transactions of a cycle fail, with the uninitialised locals 0: \<open>_read\<close> returns false
  and has cached -479.08 degrees Celsius and 3063.59 mbar. Second only the pressure read
  fails: the buffer still holds the last two bytes of the temperature read, and \<open>_read\<close>
  has cached -1751.87 mbar.
\<close>

theorem failed_read_overwrites_cache_counterexample:
  "ms8607_read exact_float datasheet_consts datasheet_dev
      \<lparr>replies = [Ack [], Ack [0x7B, 0x41, 0x44], Ack [], Ack [0x62, 0xA7, 0xA4]], trace = []\<rparr>
      0 (\<lambda>_. 0) =
     (True, datasheet_dev,
      \<lparr>replies = [],
       trace = [Write [0x5A], Delay 18, WriteThenRead [0x00] 3,
                Write [0x4A], Delay 18, WriteThenRead [0x00] 3]\<rparr>) \<and>
   ms8607_read exact_float datasheet_consts datasheet_dev
      \<lparr>replies = [Nack, Nack, Nack, Nack], trace = []\<rparr> 0 (\<lambda>_. 0) =
     (False, datasheet_dev\<lparr>temperature := - 47908 / 100, pressure := 306359 / 100\<rparr>,
      \<lparr>replies = [],
       trace = [Write [0x5A], Delay 18, WriteThenRead [0x00] 3,
                Write [0x4A], Delay 18, WriteThenRead [0x00] 3]\<rparr>) \<and>
   ms8607_read exact_float datasheet_consts datasheet_dev
      \<lparr>replies = [Ack [], Ack [0x7B, 0x41, 0x44], Ack [], Nack], trace = []\<rparr> 0 (\<lambda>_. 0) =
     (True, datasheet_dev\<lparr>pressure := - 175187 / 100\<rparr>,
      \<lparr>replies = [],
       trace = [Write [0x5A], Delay 18, WriteThenRead [0x00] 3,
                Write [0x4A], Delay 18, WriteThenRead [0x00] 3]\<rparr>) \<and>
   temperature datasheet_dev = 2000 / 100 \<and>
   pressure datasheet_dev = 110002 / 100"
proof -
  have r1: "read_adc datasheet_consts datasheet_dev
      \<lparr>replies = [Ack [], Ack [0x7B, 0x41, 0x44], Ack [], Ack [0x62, 0xA7, 0xA4]], trace = []\<rparr>
      0 (\<lambda>_. 0) =
     (1, 8077636, 6465444,
      \<lparr>replies = [],
       trace = [Write [0x5A], Delay 18, WriteThenRead [0x00] 3,
                Write [0x4A], Delay 18, WriteThenRead [0x00] 3]\<rparr>)"
    by code_simp
  have c1: "compensate datasheet_dev 8077636 6465444 =
     \<lparr>val_dT = 68, val_TEMP = 2000, val_T2 = 0, val_OFF2 = 0, val_SENS2 = 0,
      val_OFF = 5764707214, val_SENS = 3039050829, val_P = 110002\<rparr>"
    by code_simp
  have r2: "read_adc datasheet_consts datasheet_dev
      \<lparr>replies = [Nack, Nack, Nack, Nack], trace = []\<rparr> 0 (\<lambda>_. 0) =
     (0, 0, 0,
      \<lparr>replies = [],
       trace = [Write [0x5A], Delay 18, WriteThenRead [0x00] 3,
                Write [0x4A], Delay 18, WriteThenRead [0x00] 3]\<rparr>)"
    by code_simp
  have c2: "compensate datasheet_dev 0 0 =
     \<lparr>val_dT = - 8077568, val_TEMP = - 25121, val_T2 = 22787,
      val_OFF2 = 12289457090, val_SENS2 = 6354746680, val_OFF = - 10038773962,
      val_SENS = - 5149508542, val_P = 306359\<rparr>"
    by code_simp
  have r3: "read_adc datasheet_consts datasheet_dev
      \<lparr>replies = [Ack [], Ack [0x7B, 0x41, 0x44], Ack [], Nack], trace = []\<rparr> 0 (\<lambda>_. 0) =
     (1, 8077636, 0x4144,
      \<lparr>replies = [],
       trace = [Write [0x5A], Delay 18, WriteThenRead [0x00] 3,
                Write [0x4A], Delay 18, WriteThenRead [0x00] 3]\<rparr>)"
    by code_simp
  have c3: "compensate datasheet_dev 8077636 0x4144 =
     \<lparr>val_dT = 68, val_TEMP = 2000, val_T2 = 0, val_OFF2 = 0, val_SENS2 = 0,
      val_OFF = 5764707214, val_SENS = 3039050829, val_P = - 175187\<rparr>"
    by code_simp
  have d: "datasheet_dev\<lparr>temperature := 20, pressure := 110002 / 100\<rparr> = datasheet_dev"
    "datasheet_dev\<lparr>temperature := 20, pressure := - 175187 / 100\<rparr> =
     datasheet_dev\<lparr>pressure := - 175187 / 100\<rparr>"
    by (simp_all add: datasheet_dev_def)
  show ?thesis
    by (simp add: ms8607_read_def r1 c1 r2 c2 r3 c3 store_reading_def exact_float_def d)
       (simp add: datasheet_dev_def)
qed

text \<open>
  Claim C4, amended: every read cycle, whether or not a bus transaction failed, overwrites
  the cached temperature and pressure with the values compensated from \<open>raw_temp\<close> and
  \<open>raw_pressure\<close> as assembled from the 3-byte buffer, and changes nothing else of the
  device object. When all four transactions fail, both raw values are assembled from the
  read command byte and the two uninitialised bytes of the buffer.
\<close>

theorem read_always_overwrites_cache:
  "snd (ms8607_read F c dev bus status0 buffer0) =
     (dev\<lparr>temperature :=
            fdiv F
              (fsub F
                 (to_float F (val_TEMP (compensate dev
                    (fst (snd (read_adc c dev bus status0 buffer0)))
                    (fst (snd (snd (read_adc c dev bus status0 buffer0)))))))
                 (to_float F (val_T2 (compensate dev
                    (fst (snd (read_adc c dev bus status0 buffer0)))
                    (fst (snd (snd (read_adc c dev bus status0 buffer0))))))))
              (to_float F 100),
          pressure :=
            fdiv F
              (to_float F (val_P (compensate dev
                 (fst (snd (read_adc c dev bus status0 buffer0)))
                 (fst (snd (snd (read_adc c dev bus status0 buffer0)))))))
              (to_float F 100)\<rparr>,
      snd (snd (snd (read_adc c dev bus status0 buffer0)))) \<and>
   (replies bus = Nack # Nack # Nack # Nack # rest \<longrightarrow>
      fst (snd (read_adc c dev bus status0 buffer0)) =
        adc_value [PSENSOR_READ_ADC c, buffer0 1, buffer0 2] \<and>
      fst (snd (snd (read_adc c dev bus status0 buffer0))) =
        adc_value [PSENSOR_READ_ADC c, buffer0 1, buffer0 2])"
proof (intro conjI impI)
  show "snd (ms8607_read F c dev bus status0 buffer0) =
     (dev\<lparr>temperature :=
            fdiv F
              (fsub F
                 (to_float F (val_TEMP (compensate dev
                    (fst (snd (read_adc c dev bus status0 buffer0)))
                    (fst (snd (snd (read_adc c dev bus status0 buffer0)))))))
                 (to_float F (val_T2 (compensate dev
                    (fst (snd (read_adc c dev bus status0 buffer0)))
                    (fst (snd (snd (read_adc c dev bus status0 buffer0))))))))
              (to_float F 100),
          pressure :=
            fdiv F
              (to_float F (val_P (compensate dev
                 (fst (snd (read_adc c dev bus status0 buffer0)))
                 (fst (snd (snd (read_adc c dev bus status0 buffer0)))))))
              (to_float F 100)\<rparr>,
      snd (snd (snd (read_adc c dev bus status0 buffer0))))"
    by (simp add: ms8607_read_proj store_reading_def)
next
  assume r: "replies bus = Nack # Nack # Nack # Nack # rest"
  note n = read_adc_nacks [OF r, of c dev status0 buffer0]
  show "fst (snd (read_adc c dev bus status0 buffer0)) =
        adc_value [PSENSOR_READ_ADC c, buffer0 1, buffer0 2]"
    by (subst n) simp
  show "fst (snd (snd (read_adc c dev bus status0 buffer0))) =
        adc_value [PSENSOR_READ_ADC c, buffer0 1, buffer0 2]"
    by (subst n) simp
qed

theorem read_always_overwrites_cache_witness:
  "snd (ms8607_read exact_float datasheet_consts datasheet_dev
      \<lparr>replies = [Nack, Nack, Nack, Nack], trace = []\<rparr> 0 (\<lambda>_. 0)) =
     (datasheet_dev\<lparr>temperature := - 47908 / 100, pressure := 306359 / 100\<rparr>,
      \<lparr>replies = [],
       trace = [Write [0x5A], Delay 18, WriteThenRead [0x00] 3,
                Write [0x4A], Delay 18, WriteThenRead [0x00] 3]\<rparr>) \<and>
   fst (snd (read_adc datasheet_consts datasheet_dev
      \<lparr>replies = [Nack, Nack, Nack, Nack], trace = []\<rparr> 0 (\<lambda>_. 0))) = 0"
proof -
  have r: "replies \<lparr>replies = [Nack, Nack, Nack, Nack], trace = []\<rparr> =
           Nack # Nack # Nack # Nack # []"
    by simp
  have v: "adc_value [PSENSOR_READ_ADC datasheet_consts, 0, 0] = 0"
    by (simp add: adc_value_def datasheet_consts_def)
  have t: "trace (snd (snd (snd (read_adc datasheet_consts datasheet_dev
             \<lparr>replies = [Nack, Nack, Nack, Nack], trace = []\<rparr> 0 (\<lambda>_. 0))))) =
           [Write [0x5A], Delay 18, WriteThenRead [0x00] 3,
            Write [0x4A], Delay 18, WriteThenRead [0x00] 3]"
    by (simp add: read_adc_trace datasheet_consts_def datasheet_dev_def)
  have p: "replies (snd (snd (snd (read_adc datasheet_consts datasheet_dev
             \<lparr>replies = [Nack, Nack, Nack, Nack], trace = []\<rparr> 0 (\<lambda>_. 0))))) = []"
    by code_simp
  have b: "snd (snd (snd (read_adc datasheet_consts datasheet_dev
             \<lparr>replies = [Nack, Nack, Nack, Nack], trace = []\<rparr> 0 (\<lambda>_. 0)))) =
           \<lparr>replies = [],
            trace = [Write [0x5A], Delay 18, WriteThenRead [0x00] 3,
                     Write [0x4A], Delay 18, WriteThenRead [0x00] 3]\<rparr>"
    using t p by (cases "snd (snd (snd (read_adc datasheet_consts datasheet_dev
             \<lparr>replies = [Nack, Nack, Nack, Nack], trace = []\<rparr> 0 (\<lambda>_. 0))))") simp
  have c: "compensate datasheet_dev 0 0 =
     \<lparr>val_dT = - 8077568, val_TEMP = - 25121, val_T2 = 22787,
      val_OFF2 = 12289457090, val_SENS2 = 6354746680, val_OFF = - 10038773962,
      val_SENS = - 5149508542, val_P = 306359\<rparr>"
    by code_simp
  from read_always_overwrites_cache [of exact_float datasheet_consts datasheet_dev
      "\<lparr>replies = [Nack, Nack, Nack, Nack], trace = []\<rparr>" 0 "\<lambda>_. 0" "[]"] r v
  have "snd (ms8607_read exact_float datasheet_consts datasheet_dev
      \<lparr>replies = [Nack, Nack, Nack, Nack], trace = []\<rparr> 0 (\<lambda>_. 0)) =
     (datasheet_dev\<lparr>temperature :=
          fdiv exact_float
            (fsub exact_float
               (to_float exact_float (val_TEMP (compensate datasheet_dev 0 0)))
               (to_float exact_float (val_T2 (compensate datasheet_dev 0 0))))
            (to_float exact_float 100),
        pressure :=
          fdiv exact_float (to_float exact_float (val_P (compensate datasheet_dev 0 0)))
            (to_float exact_float 100)\<rparr>,
      snd (snd (snd (read_adc datasheet_consts datasheet_dev
             \<lparr>replies = [Nack, Nack, Nack, Nack], trace = []\<rparr> 0 (\<lambda>_. 0))))) \<and>
     fst (snd (read_adc datasheet_consts datasheet_dev
      \<lparr>replies = [Nack, Nack, Nack, Nack], trace = []\<rparr> 0 (\<lambda>_. 0))) = 0"
    by simp
  then show ?thesis
    by (simp add: b c exact_float_def)
qed

section \<open>The compensation\<close>

lemma int64_exact: "\<bar>x\<bar> < 2 ^ 63 \<Longrightarrow> int64 x = x"
  unfolding int64_def by (rule signed_take_bit_int_eq_self) simp_all

lemma int32_exact: "\<bar>x\<bar> < 2 ^ 31 \<Longrightarrow> int32 x = x"
  unfolding int32_def by (rule signed_take_bit_int_eq_self) simp_all

lemma abs_mult_le: "\<bar>a\<bar> \<le> A \<Longrightarrow> \<bar>b\<bar> \<le> B \<Longrightarrow> \<bar>a * b\<bar> \<le> A * (B :: int)"
  unfolding abs_mult by (rule mult_mono) simp_all

lemma abs_shr_le:
  assumes "\<bar>a\<bar> \<le> B * 2 ^ k"
  shows "\<bar>a div 2 ^ k\<bar> \<le> (B :: int)"
proof -
  have p: "(0::int) < 2 ^ k" by simp
  have u: "a \<le> B * 2 ^ k" and l: "(- B) * 2 ^ k \<le> a" using assms by simp_all
  have "a div 2 ^ k \<le> B * 2 ^ k div 2 ^ k"
    using u p by (rule zdiv_mono1)
  moreover have "(- B) * 2 ^ k div 2 ^ k \<le> a div 2 ^ k"
    using l p by (rule zdiv_mono1)
  moreover have "B * 2 ^ k div 2 ^ k = B"
    by simp
  moreover have "(- B) * 2 ^ k div 2 ^ k = - B"
    by (rule nonzero_mult_div_cancel_right) simp
  ultimately show ?thesis by (simp only: abs_le_iff) simp
qed

lemma mul64_exact:
  "\<bar>a\<bar> \<le> A \<Longrightarrow> \<bar>b\<bar> \<le> B \<Longrightarrow> A * B < 2 ^ 63 \<Longrightarrow> mul64 a b = a * b \<and> \<bar>a * b\<bar> \<le> A * B"
  using abs_mult_le [of a A b B] by (simp add: mul64_def int64_exact)

lemma shl64_exact:
  assumes "0 \<le> a" and "a < 2 ^ 16"
  shows "shl64 a 17 = a * 2 ^ 17" and "shl64 a 16 = a * 2 ^ 16"
  using assms by (simp_all add: shl64_def push_bit_eq_mult int64_exact)

lemma div64_exact:
  assumes "0 \<le> a" and "a \<le> A" and "A < 2 ^ 63"
  shows "div64 a 16 = a div 16 \<and> 0 \<le> a div 16 \<and> a div 16 \<le> A div 16"
proof -
  have s: "a sdiv 16 = a div 16"
    using assms(1) by (simp add: signed_divide_int_def sgn_if)
  have b: "0 \<le> a div 16" "a div 16 \<le> a"
    using assms(1) by presburger+
  then have "\<bar>a div 16\<bar> < 2 ^ 63" using assms by simp
  moreover have "a div 16 \<le> A div 16"
    using assms(2) by (rule zdiv_mono1) simp
  ultimately show ?thesis
    using b by (simp add: div64_def s int64_exact)
qed

lemma shr_div: "shr a k = a div 2 ^ k"
  by (simp add: shr_def drop_bit_eq_div)

lemma square_term:
  assumes "\<bar>u\<bar> \<le> 2 ^ 17" and "0 \<le> n" and "n \<le> 61"
  shows "mul64 (mul64 n u) u = n * (u * u)"
    and "0 \<le> n * (u * u)"
    and "n * (u * u) \<le> n * 2 ^ 34"
proof -
  have 1: "mul64 n u = n * u \<and> \<bar>n * u\<bar> \<le> 61 * 2 ^ 17"
    using assms by (intro mul64_exact) simp_all
  then have 2: "mul64 (n * u) u = n * u * u \<and> \<bar>n * u * u\<bar> \<le> 61 * 2 ^ 17 * 2 ^ 17"
    using assms(1) by (intro mul64_exact) simp_all
  show "mul64 (mul64 n u) u = n * (u * u)"
    using 1 2 by (simp add: mult.assoc)
  have "\<bar>u * u\<bar> \<le> 2 ^ 17 * 2 ^ 17"
    using assms(1) by (intro abs_mult_le)
  then have "u * u \<le> 2 ^ 34" by simp
  then show "n * (u * u) \<le> n * 2 ^ 34"
    using assms(2) by (rule mult_left_mono)
  show "0 \<le> n * (u * u)"
    using assms(2) by (simp add: zero_le_mult_iff)
qed

lemma second_order_exact:
  assumes dT: "\<bar>dT\<bar> \<le> 2 ^ 24" and TEMP: "\<bar>TEMP - 2000\<bar> \<le> 2 ^ 17"
  shows "second_order dT TEMP =
          ((if TEMP < 2000 then (3 * (dT * dT)) div 2 ^ 33 else (5 * (dT * dT)) div 2 ^ 38),
           (if TEMP < 2000
            then 61 * ((TEMP - 2000) * (TEMP - 2000)) div 16 +
                 (if TEMP < - 1500 then 17 * ((TEMP + 1500) * (TEMP + 1500)) else 0)
            else 0),
           (if TEMP < 2000
            then 29 * ((TEMP - 2000) * (TEMP - 2000)) div 16 +
                 (if TEMP < - 1500 then 9 * ((TEMP + 1500) * (TEMP + 1500)) else 0)
            else 0))"
    and "0 \<le> fst (snd (second_order dT TEMP))"
    and "fst (snd (second_order dT TEMP)) \<le> 333 * 2 ^ 30"
    and "0 \<le> snd (snd (second_order dT TEMP))"
    and "snd (snd (second_order dT TEMP)) \<le> 173 * 2 ^ 30"
proof -
  have dd: "mul64 dT dT = dT * dT \<and> \<bar>dT * dT\<bar> \<le> 2 ^ 24 * 2 ^ 24"
    using dT by (intro mul64_exact) simp_all
  then have d3: "mul64 3 (dT * dT) = 3 * (dT * dT)" and d5: "mul64 5 (dT * dT) = 5 * (dT * dT)"
    using mul64_exact [of 3 3 "dT * dT" "2 ^ 24 * 2 ^ 24"]
      mul64_exact [of 5 5 "dT * dT" "2 ^ 24 * 2 ^ 24"] by simp_all
  have u: "sub64 TEMP 2000 = TEMP - 2000"
    using TEMP by (simp add: sub64_def int64_exact)
  note o = square_term [OF TEMP, of 61] and s = square_term [OF TEMP, of 29]
  have od: "div64 (61 * ((TEMP - 2000) * (TEMP - 2000))) 16 =
              61 * ((TEMP - 2000) * (TEMP - 2000)) div 16 \<and>
            0 \<le> 61 * ((TEMP - 2000) * (TEMP - 2000)) div 16 \<and>
            61 * ((TEMP - 2000) * (TEMP - 2000)) div 16 \<le> 61 * 2 ^ 34 div 16"
    using o by (intro div64_exact) simp_all
  have sd: "div64 (29 * ((TEMP - 2000) * (TEMP - 2000))) 16 =
              29 * ((TEMP - 2000) * (TEMP - 2000)) div 16 \<and>
            0 \<le> 29 * ((TEMP - 2000) * (TEMP - 2000)) div 16 \<and>
            29 * ((TEMP - 2000) * (TEMP - 2000)) div 16 \<le> 29 * 2 ^ 34 div 16"
    using s by (intro div64_exact) simp_all
  have low: "add64 TEMP 1500 = TEMP + 1500 \<and>
             mul64 (mul64 17 (TEMP + 1500)) (TEMP + 1500) = 17 * ((TEMP + 1500) * (TEMP + 1500)) \<and>
             mul64 (mul64 9 (TEMP + 1500)) (TEMP + 1500) = 9 * ((TEMP + 1500) * (TEMP + 1500)) \<and>
             0 \<le> 17 * ((TEMP + 1500) * (TEMP + 1500)) \<and>
             17 * ((TEMP + 1500) * (TEMP + 1500)) \<le> 17 * 2 ^ 34 \<and>
             0 \<le> 9 * ((TEMP + 1500) * (TEMP + 1500)) \<and>
             9 * ((TEMP + 1500) * (TEMP + 1500)) \<le> 9 * 2 ^ 34"
    if "TEMP < - 1500"
  proof -
    have v: "\<bar>TEMP + 1500\<bar> \<le> 2 ^ 17" using that TEMP by simp
    have "add64 TEMP 1500 = TEMP + 1500"
      using TEMP by (simp add: add64_def int64_exact)
    then show ?thesis
      using square_term [OF v, of 17] square_term [OF v, of 9] by simp
  qed
  let ?T2 = "if TEMP < 2000 then (3 * (dT * dT)) div 2 ^ 33 else (5 * (dT * dT)) div 2 ^ 38"
  let ?OFF2 = "if TEMP < 2000
            then 61 * ((TEMP - 2000) * (TEMP - 2000)) div 16 +
                 (if TEMP < - 1500 then 17 * ((TEMP + 1500) * (TEMP + 1500)) else 0)
            else 0"
  let ?SENS2 = "if TEMP < 2000
            then 29 * ((TEMP - 2000) * (TEMP - 2000)) div 16 +
                 (if TEMP < - 1500 then 9 * ((TEMP + 1500) * (TEMP + 1500)) else 0)
            else 0"
  have eqs: "mul64 dT dT = dT * dT"
    "div64 (61 * ((TEMP - 2000) * (TEMP - 2000))) 16 =
       61 * ((TEMP - 2000) * (TEMP - 2000)) div 16"
    "div64 (29 * ((TEMP - 2000) * (TEMP - 2000))) 16 =
       29 * ((TEMP - 2000) * (TEMP - 2000)) div 16"
    using dd od sd by simp_all
  have main: "second_order dT TEMP = (?T2, ?OFF2, ?SENS2) \<and>
              0 \<le> ?OFF2 \<and> ?OFF2 \<le> 333 * 2 ^ 30 \<and> 0 \<le> ?SENS2 \<and> ?SENS2 \<le> 173 * 2 ^ 30"
  proof (cases "TEMP < 2000")
    case False
    then show ?thesis
      by (simp add: second_order_def shr_div eqs d5)
  next
    case True
    show ?thesis
    proof (cases "TEMP < - 1500")
      case False
      with True od sd show ?thesis
        by (simp add: second_order_def Let_def shr_div eqs d3 u o(1) s(1))
    next
      case l: True
      note lw = low [OF l]
      have leq: "add64 TEMP 1500 = TEMP + 1500"
        "mul64 (mul64 17 (TEMP + 1500)) (TEMP + 1500) = 17 * ((TEMP + 1500) * (TEMP + 1500))"
        "mul64 (mul64 9 (TEMP + 1500)) (TEMP + 1500) = 9 * ((TEMP + 1500) * (TEMP + 1500))"
        using lw by simp_all
      have a17: "add64 (61 * ((TEMP - 2000) * (TEMP - 2000)) div 16)
                   (17 * ((TEMP + 1500) * (TEMP + 1500))) =
                 61 * ((TEMP - 2000) * (TEMP - 2000)) div 16 +
                   17 * ((TEMP + 1500) * (TEMP + 1500))"
        using od lw by (simp add: add64_def int64_exact)
      have a9: "add64 (29 * ((TEMP - 2000) * (TEMP - 2000)) div 16)
                   (9 * ((TEMP + 1500) * (TEMP + 1500))) =
                 29 * ((TEMP - 2000) * (TEMP - 2000)) div 16 +
                   9 * ((TEMP + 1500) * (TEMP + 1500))"
        using sd lw by (simp add: add64_def int64_exact)
      from True l od sd lw show ?thesis
        by (simp add: second_order_def Let_def shr_div eqs d3 u o(1) s(1) leq a17 a9)
    qed
  qed
  show "second_order dT TEMP = (?T2, ?OFF2, ?SENS2)"
    using main by simp
  show "0 \<le> fst (snd (second_order dT TEMP))"
    and "fst (snd (second_order dT TEMP)) \<le> 333 * 2 ^ 30"
    and "0 \<le> snd (snd (second_order dT TEMP))"
    and "snd (snd (second_order dT TEMP)) \<le> 173 * 2 ^ 30"
    using main by simp_all
qed

lemma uint16_range: "0 \<le> uint (w :: uint16_t) \<and> uint w < 2 ^ 16 \<and> \<bar>uint w\<bar> \<le> 2 ^ 16"
  using uint_lt2p [of w] by simp

lemma sint_raw:
  assumes "uint (w :: uint32_t) < 2 ^ 24"
  shows "sint w = uint w"
proof -
  have "sint w = signed_take_bit 31 (uint w)"
    by (simp add: sint_uint)
  also have "\<dots> = uint w"
  proof (rule signed_take_bit_int_eq_self)
    have "- (2 ^ 31) \<le> (0::int)" by simp
    also have "0 \<le> uint w" by (rule unsigned_greater_eq)
    finally show "- (2 ^ 31) \<le> uint w" .
    show "uint w < 2 ^ 31" using assms by simp
  qed
  finally show ?thesis .
qed

lemma compensate_exact:
  assumes rt: "uint raw_temp < 2 ^ 24" and rp: "uint raw_pressure < 2 ^ 24"
  shows "compensate dev raw_temp raw_pressure =
         spec_compensation dev (uint raw_temp) (uint raw_pressure)"
proof -
  define r where "r = uint (ref_temp dev)"
  define tc where "tc = uint (temp_temp_coeff dev)"
  define po where "po = uint (press_offset dev)"
  define poc where "poc = uint (press_offset_temp_coeff dev)"
  define ps where "ps = uint (press_sens dev)"
  define psc where "psc = uint (press_sens_temp_coeff dev)"
  define dT where "dT = uint raw_temp - r * 2 ^ 8"
  define TEMP where "TEMP = 2000 + (dT * tc) div 2 ^ 23"
  define OFF2 where "OFF2 = fst (snd (second_order dT TEMP))"
  define SENS2 where "SENS2 = snd (snd (second_order dT TEMP))"
  define OFF where "OFF = po * 2 ^ 17 + (poc * dT) div 2 ^ 6 - OFF2"
  define SENS where "SENS = ps * 2 ^ 16 + (psc * dT) div 2 ^ 7 - SENS2"
  have c: "0 \<le> r" "r < 2 ^ 16" "0 \<le> tc" "tc < 2 ^ 16" "0 \<le> po" "po < 2 ^ 16"
    "0 \<le> poc" "poc < 2 ^ 16" "0 \<le> ps" "ps < 2 ^ 16" "0 \<le> psc" "psc < 2 ^ 16"
    using uint16_range by (simp_all add: r_def tc_def po_def poc_def ps_def psc_def)
  have e_shl: "shl32 r 8 = r * 2 ^ 8"
    using c by (simp add: shl32_def push_bit_eq_mult int32_exact)
  have rt0: "0 \<le> uint raw_temp" and rp0: "0 \<le> uint raw_pressure"
    by simp_all
  have "r * 2 ^ 8 < 16777216" "0 \<le> r * 2 ^ 8" "uint raw_temp < 16777216"
    using c rt by simp_all
  with rt0 have "\<bar>uint raw_temp - r * 2 ^ 8\<bar> \<le> 16777216"
    by linarith
  then have dT_b: "\<bar>dT\<bar> \<le> 2 ^ 24"
    by (simp add: dT_def)
  have e_dT: "sub32 (sint raw_temp) (r * 2 ^ 8) = dT"
    using dT_b by (simp add: sub32_def sint_raw [OF rt] dT_def int32_exact)
  have m1: "mul64 dT tc = dT * tc \<and> \<bar>dT * tc\<bar> \<le> 2 ^ 24 * 2 ^ 16"
    using dT_b c by (intro mul64_exact) simp_all
  then have s1: "\<bar>(dT * tc) div 2 ^ 23\<bar> \<le> 2 ^ 17"
    by (intro abs_shr_le) simp
  then have TEMP_b: "\<bar>TEMP - 2000\<bar> \<le> 2 ^ 17"
    by (simp add: TEMP_def)
  have e_TEMP: "int32 (add64 2000 ((dT * tc) div 2 ^ 23)) = TEMP"
    using s1 by (simp add: add64_def int64_exact int32_exact TEMP_def)
  note so = second_order_exact [OF dT_b TEMP_b]
  have so_b: "0 \<le> OFF2" "OFF2 \<le> 333 * 2 ^ 30" "0 \<le> SENS2" "SENS2 \<le> 173 * 2 ^ 30"
    using so(2-5) by (simp_all add: OFF2_def SENS2_def)
  have m2: "mul64 poc dT = poc * dT \<and> \<bar>poc * dT\<bar> \<le> 2 ^ 16 * 2 ^ 24"
    using dT_b c by (intro mul64_exact) simp_all
  then have s2: "\<bar>(poc * dT) div 2 ^ 6\<bar> \<le> 2 ^ 34"
    by (intro abs_shr_le) simp
  have m3: "mul64 psc dT = psc * dT \<and> \<bar>psc * dT\<bar> \<le> 2 ^ 16 * 2 ^ 24"
    using dT_b c by (intro mul64_exact) simp_all
  then have s3: "\<bar>(psc * dT) div 2 ^ 7\<bar> \<le> 2 ^ 33"
    by (intro abs_shr_le) simp
  have e_OFF: "sub64 (add64 (po * 2 ^ 17) ((poc * dT) div 2 ^ 6)) OFF2 = OFF"
    using c s2 so_b by (simp add: add64_def sub64_def int64_exact OFF_def)
  have e_SENS: "sub64 (add64 (ps * 2 ^ 16) ((psc * dT) div 2 ^ 7)) SENS2 = SENS"
    using c s3 so_b by (simp add: add64_def sub64_def int64_exact SENS_def)
  have OFF_b: "\<bar>OFF\<bar> \<le> 357 * 2 ^ 30"
    using c s2 so_b by (simp add: OFF_def)
  have SENS_b: "\<bar>SENS\<bar> \<le> 185 * 2 ^ 30"
    using c s3 so_b by (simp add: SENS_def)
  have "uint raw_pressure < 16777216"
    using rp by simp
  with rp0 have "\<bar>uint raw_pressure\<bar> \<le> 16777216"
    by linarith
  then have rp_b: "\<bar>uint raw_pressure\<bar> \<le> 2 ^ 24"
    by simp
  have m4: "mul64 (uint raw_pressure) SENS = uint raw_pressure * SENS \<and>
            \<bar>uint raw_pressure * SENS\<bar> \<le> 2 ^ 24 * (185 * 2 ^ 30)"
    using rp_b SENS_b by (intro mul64_exact) simp_all
  then have s4: "\<bar>(uint raw_pressure * SENS) div 2 ^ 21\<bar> \<le> 185 * 2 ^ 33"
    by (intro abs_shr_le) simp
  have e_P: "sub64 ((uint raw_pressure * SENS) div 2 ^ 21) OFF =
             (uint raw_pressure * SENS) div 2 ^ 21 - OFF"
    using s4 OFF_b by (simp add: sub64_def int64_exact)
  have lhs: "compensate dev raw_temp raw_pressure =
      \<lparr>val_dT = dT, val_TEMP = TEMP, val_T2 = fst (second_order dT TEMP),
       val_OFF2 = OFF2, val_SENS2 = SENS2, val_OFF = OFF, val_SENS = SENS,
       val_P = ((uint raw_pressure * SENS) div 2 ^ 21 - OFF) div 2 ^ 15\<rparr>"
  proof -
    have eqs: "mul64 dT tc = dT * tc" "mul64 poc dT = poc * dT" "mul64 psc dT = psc * dT"
      "mul64 (uint raw_pressure) SENS = uint raw_pressure * SENS"
      "shl64 po 17 = po * 2 ^ 17" "shl64 ps 16 = ps * 2 ^ 16"
      using m1 m2 m3 m4 shl64_exact [of po] shl64_exact [of ps] c by simp_all
    show ?thesis
      by (simp only: compensate_def Let_def r_def [symmetric] tc_def [symmetric]
            po_def [symmetric] poc_def [symmetric] ps_def [symmetric] psc_def [symmetric]
            e_shl e_dT eqs shr_div e_TEMP OFF2_def [symmetric] SENS2_def [symmetric]
            e_OFF e_SENS e_P)
  qed
  have rhs: "spec_compensation dev (uint raw_temp) (uint raw_pressure) =
      \<lparr>val_dT = dT, val_TEMP = TEMP, val_T2 = fst (second_order dT TEMP),
       val_OFF2 = OFF2, val_SENS2 = SENS2, val_OFF = OFF, val_SENS = SENS,
       val_P = ((uint raw_pressure * SENS) div 2 ^ 21 - OFF) div 2 ^ 15\<rparr>"
  proof -
    have T2eq: "(if TEMP < 2000 then (3 * (dT * dT)) div 2 ^ 33 else (5 * (dT * dT)) div 2 ^ 38) =
                fst (second_order dT TEMP)"
      by (simp only: so(1) fst_conv)
    have OFF2eq: "(if TEMP < 2000
                   then 61 * ((TEMP - 2000) * (TEMP - 2000)) div 16 +
                        (if TEMP < - 1500 then 17 * ((TEMP + 1500) * (TEMP + 1500)) else 0)
                   else 0) = OFF2"
      by (simp only: OFF2_def so(1) fst_conv snd_conv)
    have SENS2eq: "(if TEMP < 2000
                    then 29 * ((TEMP - 2000) * (TEMP - 2000)) div 16 +
                         (if TEMP < - 1500 then 9 * ((TEMP + 1500) * (TEMP + 1500)) else 0)
                    else 0) = SENS2"
      by (simp only: SENS2_def so(1) fst_conv snd_conv)
    show ?thesis
      by (simp only: spec_compensation_def Let_def r_def [symmetric] tc_def [symmetric]
            po_def [symmetric] poc_def [symmetric] ps_def [symmetric] psc_def [symmetric]
            dT_def [symmetric] TEMP_def [symmetric] T2eq OFF2eq SENS2eq
            OFF_def [symmetric] SENS_def [symmetric])
  qed
  show ?thesis by (simp only: lhs rhs)
qed

lemma adc_value_any_range: "uint (adc_value buffer) < 2 ^ 24"
proof -
  have "adc_value buffer = adc_value [buffer ! 0, buffer ! 1, buffer ! 2]"
    by (simp add: adc_value_def)
  then show ?thesis
    by (simp only: adc_value_range)
qed

lemma read_adc_range:
  "uint (fst (snd (read_adc c dev bus status0 buffer0))) < 2 ^ 24"
  "uint (fst (snd (snd (read_adc c dev bus status0 buffer0)))) < 2 ^ 24"
  by (simp_all only: read_adc_def Let_def fst_conv snd_conv adc_value_any_range)

text \<open>
  Claim C1: for every raw sample with both values below 2^24 and every calibration set,
  the compensation of \<open>_read\<close>, in its 32-bit and 64-bit signed arithmetic, computes
  exactly the values of the specification's algorithm on unbounded integers (so no
  operation overflows): dT, TEMP, T2, OFF2, SENS2, OFF, SENS and P; the values stored are
  (TEMP - T2) / 100 and P / 100, converted and divided in the target's float arithmetic.
  The raw values of every read cycle are below 2^24, so this holds for every call of
  \<open>_read\<close>.
\<close>

theorem compensation_follows_spec:
  assumes "uint raw_temp < 2 ^ 24" and "uint raw_pressure < 2 ^ 24"
  shows "compensate dev raw_temp raw_pressure =
           spec_compensation dev (uint raw_temp) (uint raw_pressure) \<and>
         store_reading F (compensate dev raw_temp raw_pressure) dev =
           dev\<lparr>temperature :=
                 fdiv F
                   (fsub F
                      (to_float F
                         (val_TEMP (spec_compensation dev (uint raw_temp) (uint raw_pressure))))
                      (to_float F
                         (val_T2 (spec_compensation dev (uint raw_temp) (uint raw_pressure)))))
                   (to_float F 100),
               pressure :=
                 fdiv F
                   (to_float F
                      (val_P (spec_compensation dev (uint raw_temp) (uint raw_pressure))))
                   (to_float F 100)\<rparr> \<and>
         fst (snd (ms8607_read F c dev bus status0 buffer0)) =
           store_reading F
             (spec_compensation dev
                (uint (fst (snd (read_adc c dev bus status0 buffer0))))
                (uint (fst (snd (snd (read_adc c dev bus status0 buffer0)))))) dev"
proof -
  note e = compensate_exact [OF assms, of dev]
  have r: "compensate dev (fst (snd (read_adc c dev bus status0 buffer0)))
             (fst (snd (snd (read_adc c dev bus status0 buffer0)))) =
           spec_compensation dev
             (uint (fst (snd (read_adc c dev bus status0 buffer0))))
             (uint (fst (snd (snd (read_adc c dev bus status0 buffer0)))))"
    by (rule compensate_exact [OF read_adc_range])
  show ?thesis
    by (simp only: e r ms8607_read_proj store_reading_def fst_conv snd_conv simp_thms)
qed

theorem compensation_follows_spec_witness:
  "compensate datasheet_dev 8077636 6465444 =
     \<lparr>val_dT = 68, val_TEMP = 2000, val_T2 = 0, val_OFF2 = 0, val_SENS2 = 0,
      val_OFF = 5764707214, val_SENS = 3039050829, val_P = 110002\<rparr> \<and>
   spec_compensation datasheet_dev 8077636 6465444 =
     \<lparr>val_dT = 68, val_TEMP = 2000, val_T2 = 0, val_OFF2 = 0, val_SENS2 = 0,
      val_OFF = 5764707214, val_SENS = 3039050829, val_P = 110002\<rparr>"
proof -
  have b: "uint (8077636 :: uint32_t) < 2 ^ 24" "uint (6465444 :: uint32_t) < 2 ^ 24"
    by simp_all
  have v: "compensate datasheet_dev 8077636 6465444 =
     \<lparr>val_dT = 68, val_TEMP = 2000, val_T2 = 0, val_OFF2 = 0, val_SENS2 = 0,
      val_OFF = 5764707214, val_SENS = 3039050829, val_P = 110002\<rparr>"
    by code_simp
  from compensation_follows_spec [OF b, of datasheet_dev exact_float datasheet_consts
      "\<lparr>replies = [], trace = []\<rparr>" 0 "\<lambda>_. 0"] v
  show ?thesis by simp
qed

lemma second_order_independent:
  "val_dT (compensate dev raw_temp raw_pressure) = val_dT (compensate dev raw_temp 0)"
  "val_TEMP (compensate dev raw_temp raw_pressure) = val_TEMP (compensate dev raw_temp 0)"
  "val_T2 (compensate dev raw_temp raw_pressure) = val_T2 (compensate dev raw_temp 0)"
  "val_OFF2 (compensate dev raw_temp raw_pressure) = val_OFF2 (compensate dev raw_temp 0)"
  "val_SENS2 (compensate dev raw_temp raw_pressure) = val_SENS2 (compensate dev raw_temp 0)"
  by (simp_all only: compensate_def Let_def compensation.select_convs)

lemma spec_second_order_fields:
  "val_T2 (spec_compensation dev a b) =
     (if val_TEMP (spec_compensation dev a b) < 2000
      then (3 * (val_dT (spec_compensation dev a b) * val_dT (spec_compensation dev a b)))
             div 2 ^ 33
      else (5 * (val_dT (spec_compensation dev a b) * val_dT (spec_compensation dev a b)))
             div 2 ^ 38)"
  "val_OFF2 (spec_compensation dev a b) =
     (if val_TEMP (spec_compensation dev a b) < 2000
      then 61 * ((val_TEMP (spec_compensation dev a b) - 2000) *
                 (val_TEMP (spec_compensation dev a b) - 2000)) div 16 +
           (if val_TEMP (spec_compensation dev a b) < - 1500
            then 17 * ((val_TEMP (spec_compensation dev a b) + 1500) *
                       (val_TEMP (spec_compensation dev a b) + 1500))
            else 0)
      else 0)"
  "val_SENS2 (spec_compensation dev a b) =
     (if val_TEMP (spec_compensation dev a b) < 2000
      then 29 * ((val_TEMP (spec_compensation dev a b) - 2000) *
                 (val_TEMP (spec_compensation dev a b) - 2000)) div 16 +
           (if val_TEMP (spec_compensation dev a b) < - 1500
            then 9 * ((val_TEMP (spec_compensation dev a b) + 1500) *
                      (val_TEMP (spec_compensation dev a b) + 1500))
            else 0)
      else 0)"
  by (simp_all only: spec_compensation_def Let_def compensation.select_convs)

text \<open>
  Claim C8: when the first-order temperature TEMP is exactly 2000, the compensation takes
  the branch "not below 20 degrees Celsius": T2 = (5 * dT^2) >> 38 and OFF2 = SENS2 = 0.
\<close>

theorem temp_2000_takes_upper_branch:
  assumes "uint raw_temp < 2 ^ 24"
    and "val_TEMP (compensate dev raw_temp raw_pressure) = 2000"
  shows "val_T2 (compensate dev raw_temp raw_pressure) =
           (5 * (val_dT (compensate dev raw_temp raw_pressure) *
                 val_dT (compensate dev raw_temp raw_pressure))) div 2 ^ 38 \<and>
         val_OFF2 (compensate dev raw_temp raw_pressure) = 0 \<and>
         val_SENS2 (compensate dev raw_temp raw_pressure) = 0"
proof -
  have z: "uint (0 :: uint32_t) < 2 ^ 24" by simp
  note e = compensate_exact [OF assms(1) z, of dev]
  have "val_TEMP (spec_compensation dev (uint raw_temp) (uint (0 :: uint32_t))) = 2000"
    using assms(2) by (simp only: second_order_independent(2) [of dev raw_temp raw_pressure] e)
  then have "val_T2 (spec_compensation dev (uint raw_temp) (uint (0 :: uint32_t))) =
           (5 * (val_dT (spec_compensation dev (uint raw_temp) (uint (0 :: uint32_t))) *
                 val_dT (spec_compensation dev (uint raw_temp) (uint (0 :: uint32_t))))) div 2 ^ 38 \<and>
         val_OFF2 (spec_compensation dev (uint raw_temp) (uint (0 :: uint32_t))) = 0 \<and>
         val_SENS2 (spec_compensation dev (uint raw_temp) (uint (0 :: uint32_t))) = 0"
    by (simp add: spec_second_order_fields)
  then show ?thesis
    by (simp only: second_order_independent [of dev raw_temp raw_pressure] e)
qed

theorem temp_2000_takes_upper_branch_witness:
  "val_TEMP (compensate (datasheet_dev\<lparr>ref_temp := 0, temp_temp_coeff := 1\<rparr>) 8000000 6465444) =
     2000 \<and>
   val_dT (compensate (datasheet_dev\<lparr>ref_temp := 0, temp_temp_coeff := 1\<rparr>) 8000000 6465444) =
     8000000 \<and>
   val_T2 (compensate (datasheet_dev\<lparr>ref_temp := 0, temp_temp_coeff := 1\<rparr>) 8000000 6465444) =
     1164 \<and>
   val_OFF2 (compensate (datasheet_dev\<lparr>ref_temp := 0, temp_temp_coeff := 1\<rparr>) 8000000 6465444) =
     0 \<and>
   val_SENS2 (compensate (datasheet_dev\<lparr>ref_temp := 0, temp_temp_coeff := 1\<rparr>) 8000000 6465444) =
     0"
proof -
  have b: "uint (8000000 :: uint32_t) < 2 ^ 24" by simp
  have t: "val_TEMP (compensate (datasheet_dev\<lparr>ref_temp := 0, temp_temp_coeff := 1\<rparr>)
             8000000 6465444) = 2000"
    by code_simp
  have d: "val_dT (compensate (datasheet_dev\<lparr>ref_temp := 0, temp_temp_coeff := 1\<rparr>)
             8000000 6465444) = 8000000"
    by code_simp
  from temp_2000_takes_upper_branch [OF b t] t d show ?thesis by simp
qed

end
